theory Spec2Isabelle
  imports Complex_Main "HOL-Library.Log_Nat" "HOL-Library.Sublist"
begin

text \<open>
  A shallow embedding of \<^verbatim>\<open>groauto_script.py\<close>: the template writer
  \<^verbatim>\<open>write_mdp_files\<close>, the command runner \<^verbatim>\<open>run_step\<close> and the
  script body that prompts for three lines, writes five parameter files and runs thirteen
  external commands. The Python built-ins the script relies on (\<^verbatim>\<open>input\<close>,
  \<^verbatim>\<open>float\<close>, \<^verbatim>\<open>int\<close>, string formatting, \<^verbatim>\<open>str.strip\<close>,
  \<^verbatim>\<open>subprocess.run\<close> with \<^verbatim>\<open>check=True\<close>, \<^verbatim>\<open>exit\<close>) are
  modelled as far as the script uses them.
\<close>

section \<open>Python values used by the script\<close>

text \<open>
  \<^verbatim>\<open>input(...) or 298\<close> is either the typed string or the integer default, so the
  two parameters are objects of type \<open>pyobj\<close>. A character of a \<open>string\<close> stands for
  the code point of the same number (0 to 255). A float is the rational it denotes, or an
  infinity (\<open>Infinity True\<close> is the negative one), or NaN; the sign of a zero is not kept,
  because the script only passes floats to \<^verbatim>\<open>int\<close> and never prints them.
  \<open>SystemExit\<close> is what \<^verbatim>\<open>exit(1)\<close> raises; \<open>OSError\<close> is what
  \<^verbatim>\<open>open(filename, "w")\<close> raises when the file cannot be opened, and
  \<open>UnicodeEncodeError\<close> is what \<^verbatim>\<open>f.write(content)\<close> raises when the encoding
  of the file has no code for a character of the content. Code points above 255 are not
  represented.
\<close>

datatype pyobj = IntObj int | StrObj string

datatype pyfloat = Finite rat | Infinity bool | NaN

datatype exn =
  EOFError | ValueError | OverflowError | OSError | UnicodeEncodeError | SystemExit int

text \<open>
  \<^verbatim>\<open>str\<close> of an integer, as used by the replacement fields \<^verbatim>\<open>{temp}\<close>,
  \<^verbatim>\<open>{total_steps}\<close> and \<^verbatim>\<open>{user_ns}\<close>: decimal digits, with a minus sign for
  negative numbers. A replacement field without format specification formats a string as
  itself and an integer by \<^verbatim>\<open>str\<close>.
\<close>

definition digit_char :: "nat \<Rightarrow> char" where
  "digit_char d = ''0123456789'' ! d"

fun str_nat :: "nat \<Rightarrow> string" where
  "str_nat n = (if n < 10 then [digit_char n] else str_nat (n div 10) @ [digit_char (n mod 10)])"

declare str_nat.simps [simp del]

definition str_int :: "int \<Rightarrow> string" where
  "str_int i = (if i < 0 then CHR ''-'' # str_nat (nat (- i)) else str_nat (nat i))"

fun py_str :: "pyobj \<Rightarrow> string" where
  "py_str (IntObj i) = str_int i"
| "py_str (StrObj s) = s"

subsection \<open>Binary64 arithmetic\<close>

text \<open>
  A Python float is an IEEE 754 binary64 number. \<open>round_double q\<close> is the float nearest to
  the rational \<open>q\<close>, ties going to the even significand: \<open>binexp q\<close> is the exponent
  \<open>e\<close> with \<open>2 powi e \<le> \<bar>q\<bar>\<close> and \<open>\<bar>q\<bar> < 2 powi (e + 1)\<close>, the spacing of the
  floats around \<open>q\<close> is \<open>2\<close> to the power \<open>max (e - 52) (- 1074)\<close> (53 significant
  bits, gradual underflow),
  and a result of magnitude \<open>2 powi 1024\<close> or more is an infinity. \<open>float_mul\<close> is
  \<^verbatim>\<open>*\<close> on floats and \<open>py_int\<close> is \<^verbatim>\<open>int(x)\<close> for a float \<open>x\<close>, which
  truncates toward zero and raises for an infinity and for NaN.
\<close>

definition round_half_even :: "rat \<Rightarrow> int" where
  "round_half_even x =
     (let f = \<lfloor>x\<rfloor>; d = x - of_int f
      in if d < 1 / 2 then f else if 1 / 2 < d then f + 1 else if even f then f else f + 1)"

definition binexp :: "rat \<Rightarrow> int" where
  "binexp q =
     (let (a, b) = quotient_of \<bar>q\<bar>; k = bitlen a - bitlen b
      in if 2 powi k \<le> \<bar>q\<bar> then k else k - 1)"

definition round_double :: "rat \<Rightarrow> pyfloat" where
  "round_double q =
     (if q = 0 then Finite 0
      else let qe = max (binexp q - 52) (- 1074);
               r = of_int (round_half_even (q / 2 powi qe)) * 2 powi qe
           in if 2 powi 1024 \<le> \<bar>r\<bar> then Infinity (q < 0) else Finite r)"

fun float_mul :: "pyfloat \<Rightarrow> pyfloat \<Rightarrow> pyfloat" where
  "float_mul (Finite a) (Finite b) = round_double (a * b)"
| "float_mul NaN y = NaN"
| "float_mul x NaN = NaN"
| "float_mul (Infinity s) (Infinity t) = Infinity (s \<noteq> t)"
| "float_mul (Infinity s) (Finite b) = (if b = 0 then NaN else Infinity (s \<noteq> (b < 0)))"
| "float_mul (Finite a) (Infinity t) = (if a = 0 then NaN else Infinity ((a < 0) \<noteq> t))"

definition trunc :: "rat \<Rightarrow> int" where
  "trunc q = (if 0 \<le> q then \<lfloor>q\<rfloor> else \<lceil>q\<rceil>)"

fun py_int :: "pyfloat \<Rightarrow> exn + int" where
  "py_int (Finite q) = Inr (trunc q)"
| "py_int (Infinity s) = Inl OverflowError"
| "py_int NaN = Inl ValueError"

subsection \<open>float() of a string or an integer\<close>

text \<open>
  \<^verbatim>\<open>float(s)\<close> for a string: white space of the code points 133 and 160 counts as a
  blank and every other code point from 127 on is no part of a number; leading and trailing
  blanks are removed; an underscore is accepted between two digits only; then comes an optional
  sign followed by \<^verbatim>\<open>inf\<close>, \<^verbatim>\<open>infinity\<close> or \<^verbatim>\<open>nan\<close> in any case, or by a
  decimal numeral with an optional fraction and an optional exponent, which is converted with
  correct rounding. Anything else is a \<open>ValueError\<close>. (CPython also refuses numerals of
  more than a thousand million digits; lines of that size are outside this model.)
  \<^verbatim>\<open>float(n)\<close> for an integer rounds in the same way and raises \<open>OverflowError\<close>
  when the integer is too large.
\<close>

definition is_digit :: "char \<Rightarrow> bool" where
  "is_digit c \<longleftrightarrow> 48 \<le> (of_char c :: nat) \<and> (of_char c :: nat) \<le> 57"

definition digit_val :: "char \<Rightarrow> nat" where
  "digit_val c = of_char c - 48"

definition nat_of_digits :: "string \<Rightarrow> nat" where
  "nat_of_digits ds = foldl (\<lambda>a c. 10 * a + digit_val c) 0 ds"

definition is_ascii_space :: "char \<Rightarrow> bool" where
  "is_ascii_space c \<longleftrightarrow> (of_char c :: nat) \<in> {9, 10, 11, 12, 13, 32}"

definition to_ascii :: "char \<Rightarrow> char" where
  "to_ascii c =
     (if (of_char c :: nat) < 127 then c
      else if (of_char c :: nat) \<in> {133, 160} then CHR '' '' else CHR ''?'')"

definition lower :: "char \<Rightarrow> char" where
  "lower c =
     (case map_of (zip ''ABCDEFGHIJKLMNOPQRSTUVWXYZ'' ''abcdefghijklmnopqrstuvwxyz'') c of
        None \<Rightarrow> c
      | Some l \<Rightarrow> l)"

fun drop_underscores :: "char \<Rightarrow> string \<Rightarrow> string option" where
  "drop_underscores prev [] = (if prev = CHR ''_'' then None else Some [])"
| "drop_underscores prev (c # cs) =
     (if c = CHR ''_'' then (if is_digit prev then drop_underscores c cs else None)
      else if prev = CHR ''_'' \<and> \<not> is_digit c then None
      else map_option (Cons c) (drop_underscores c cs))"

definition split_sign :: "string \<Rightarrow> bool \<times> string" where
  "split_sign s =
     (case s of
        [] \<Rightarrow> (False, [])
      | c # t \<Rightarrow> if c = CHR ''-'' then (True, t) else if c = CHR ''+'' then (False, t) else (False, s))"

definition parse_exponent :: "string \<Rightarrow> int option" where
  "parse_exponent s =
     (case s of
        [] \<Rightarrow> Some 0
      | c # t \<Rightarrow>
          if c = CHR ''e'' \<or> c = CHR ''E''
          then (let (neg, d) = split_sign t
                in if d \<noteq> [] \<and> list_all is_digit d
                   then Some (if neg then - int (nat_of_digits d) else int (nat_of_digits d))
                   else None)
          else None)"

definition parse_number :: "string \<Rightarrow> rat option" where
  "parse_number s =
     (let ip = takeWhile is_digit s;
          r = dropWhile is_digit s;
          (fp, r') = (case r of
                        [] \<Rightarrow> ([], [])
                      | c # t \<Rightarrow> if c = CHR ''.''
                                 then (takeWhile is_digit t, dropWhile is_digit t)
                                 else ([], r))
      in if ip = [] \<and> fp = [] then None
         else case parse_exponent r' of
                None \<Rightarrow> None
              | Some e \<Rightarrow> Some (of_nat (nat_of_digits (ip @ fp)) * 10 powi (e - int (length fp))))"

definition parse_float_body :: "string \<Rightarrow> pyfloat option" where
  "parse_float_body s =
     (let (neg, b) = split_sign s; lb = map lower b
      in if lb = ''inf'' \<or> lb = ''infinity'' then Some (Infinity neg)
         else if lb = ''nan'' then Some NaN
         else case parse_number b of
                None \<Rightarrow> None
              | Some q \<Rightarrow> Some (round_double (if neg then - q else q)))"

definition strip_ascii :: "string \<Rightarrow> string" where
  "strip_ascii s = rev (dropWhile is_ascii_space (rev (dropWhile is_ascii_space s)))"

definition float_of_string :: "string \<Rightarrow> pyfloat option" where
  "float_of_string s =
     (let t = strip_ascii (map to_ascii s)
      in if t = [] then None
         else case drop_underscores (CHR 0x00) t of
                None \<Rightarrow> None
              | Some u \<Rightarrow> parse_float_body u)"

fun py_float :: "pyobj \<Rightarrow> exn + pyfloat" where
  "py_float (IntObj i) =
     (case round_double (of_int i) of Infinity s \<Rightarrow> Inl OverflowError | x \<Rightarrow> Inr x)"
| "py_float (StrObj s) =
     (case float_of_string s of None \<Rightarrow> Inl ValueError | Some x \<Rightarrow> Inr x)"

text \<open>
  Line 10, \<^verbatim>\<open>total_steps = int(ns_length * 1000000)\<close>: the integer
  \<^verbatim>\<open>1000000\<close> becomes the float of the same number and the product is a float product.
\<close>

definition total_steps :: "pyfloat \<Rightarrow> exn + int" where
  "total_steps ns_length = py_int (float_mul ns_length (Finite 1000000))"

section \<open>The process and its surroundings\<close>

text \<open>
  The state of the running script is a \<open>world\<close>: the lines still to be read from standard
  input, what the script has written to standard output (one entry for each prompt and each
  \<^verbatim>\<open>print\<close>), the files of the working directory, and a log of the external commands
  run so far, each with the standard input given to it and its exit status. What the script
  cannot decide is a parameter, the \<open>env\<close>: what a shell command returns and does to the
  files, which file names can be opened for writing, which characters outside ASCII the
  encoding of the files can encode (every encoding that Python takes from the locale encodes
  ASCII), and how the platform names a signal. Other failures of the operating system (a full
  disk, starting the shell, writing to the terminal) are taken not to happen, and
  \<^verbatim>\<open>subprocess.run\<close> is taken to start every command it is given (it refuses one
  that contains the code point 0).

  An \<open>action\<close> returns a value or raises an exception, and the changed world; \<open>bnd\<close>
  runs two actions in sequence and stops at the first exception.
\<close>

record world =
  stdin :: "string list"
  stdout :: "string list"
  files :: "string \<rightharpoonup> string"
  invoked :: "(string \<times> string option \<times> int) list"

record env =
  shell :: "string \<Rightarrow> string option \<Rightarrow> (string \<rightharpoonup> string) \<Rightarrow> int \<times> (string \<rightharpoonup> string)"
  writable :: "string \<Rightarrow> bool"
  encodable :: "char \<Rightarrow> bool"
  signal_repr :: "int \<Rightarrow> string option"

type_synonym 'a result = "exn + 'a"

type_synonym 'a action = "world \<Rightarrow> 'a result \<times> world"

definition bnd :: "'a action \<Rightarrow> ('a \<Rightarrow> 'b action) \<Rightarrow> 'b action" where
  "bnd m f w = (case m w of (Inl e, w') \<Rightarrow> (Inl e, w') | (Inr x, w') \<Rightarrow> f x w')"

definition raise_or_return :: "'a result \<Rightarrow> 'a action" where
  "raise_or_return r w = (r, w)"

text \<open>
  \<^verbatim>\<open>print(s)\<close> writes \<open>s\<close> and a newline. \<^verbatim>\<open>input(prompt)\<close> writes the
  prompt and returns the next line without its newline, or raises \<open>EOFError\<close> at the end
  of the input. \<open>or_default s d\<close> is \<^verbatim>\<open>s or d\<close> for a string \<open>s\<close>: only the empty
  string is false. \<open>strip\<close> is \<^verbatim>\<open>str.strip()\<close>, which removes the white space
  code points 9 to 13, 28 to 32, 133 and 160 from both ends. \<open>exit_status\<close> is the exit
  status of the interpreter: 0 at the end of the script, the argument of \<^verbatim>\<open>exit\<close>,
  and 1 for any other exception that nothing catches.
\<close>

definition print :: "string \<Rightarrow> unit action" where
  "print s w = (Inr (), w\<lparr>stdout := stdout w @ [s @ ''\<newline>'']\<rparr>)"

definition input :: "string \<Rightarrow> string action" where
  "input prompt w =
     (case stdin w of
        [] \<Rightarrow> (Inl EOFError, w\<lparr>stdout := stdout w @ [prompt]\<rparr>)
      | l # ls \<Rightarrow> (Inr l, w\<lparr>stdin := ls, stdout := stdout w @ [prompt]\<rparr>))"

definition or_default :: "string \<Rightarrow> int \<Rightarrow> pyobj" where
  "or_default s d = (if s = [] then IntObj d else StrObj s)"

definition is_space :: "char \<Rightarrow> bool" where
  "is_space c \<longleftrightarrow> (of_char c :: nat) \<in> {9, 10, 11, 12, 13, 28, 29, 30, 31, 32, 133, 160}"

definition strip :: "string \<Rightarrow> string" where
  "strip s = rev (dropWhile is_space (rev (dropWhile is_space s)))"

definition exit_status :: "'a result \<Rightarrow> int" where
  "exit_status r = (case r of Inr x \<Rightarrow> 0 | Inl (SystemExit n) \<Rightarrow> n | Inl e \<Rightarrow> 1)"

section \<open>The template writer\<close>

text \<open>
  Lines 12 to 88: the dictionary \<^verbatim>\<open>mdp_content\<close> in its insertion order, as a function
  of \<^verbatim>\<open>temp\<close> and of the computed \<^verbatim>\<open>total_steps\<close>. Adjacent string literals
  are joined, and only the lines 38, 52, 69 and 74 have replacement fields.
\<close>

definition mdp_content :: "pyobj \<Rightarrow> int \<Rightarrow> (string \<times> string) list" where
  "mdp_content temp steps =
     [(''ions.mdp'', ''integrator = steep\<newline>''),
      (''minim.mdp'',
        ''integrator  = steep\<newline>'' @
        ''emtol       = 1000.0\<newline>'' @
        ''emstep      = 0.01\<newline>'' @
        ''nsteps      = 50000\<newline>'' @
        ''nstlist     = 1\<newline>'' @
        ''cutoff-scheme = Verlet\<newline>'' @
        ''ns_type     = grid\<newline>'' @
        ''coulombtype = PME\<newline>'' @
        ''rcoulomb    = 1.0\<newline>'' @
        ''rvdw        = 1.0\<newline>'' @
        ''pbc         = xyz\<newline>''),
      (''nvt.mdp'',
        ''define                  = -DPOSRES\<newline>'' @
        ''integrator              = md\<newline>'' @
        ''dt                      = 0.001\<newline>'' @
        ''nsteps                  = 50000\<newline>'' @
        ''nstxout                 = 500\<newline>'' @
        ''tcoupl                  = v-rescale\<newline>'' @
        ''tc-grps                 = Protein Non-Protein\<newline>'' @
        ''tau_t                   = 0.1     0.1\<newline>'' @
        ''ref_t                   = '' @ py_str temp @ ''     '' @ py_str temp @ ''\<newline>'' @
        ''pcoupl                  = no\<newline>'' @
        ''pbc                     = xyz\<newline>''),
      (''npt.mdp'',
        ''define                  = -DPOSRES\<newline>'' @
        ''integrator              = md\<newline>'' @
        ''dt                      = 0.001\<newline>'' @
        ''nsteps                  = 50000\<newline>'' @
        ''nstxout                 = 500\<newline>'' @
        ''tcoupl                  = v-rescale\<newline>'' @
        ''tc-grps                 = Protein Non-Protein\<newline>'' @
        ''tau_t                   = 0.1     0.1\<newline>'' @
        ''ref_t                   = '' @ py_str temp @ ''     '' @ py_str temp @ ''\<newline>'' @
        ''pcoupl                  = c-rescale\<newline>'' @
        ''pcoupltype              = isotropic\<newline>'' @
        ''tau_p                   = 2.0\<newline>'' @
        ''compressibility         = 4.5e-5\<newline>'' @
        ''ref_p                   = 1.0\<newline>'' @
        ''refcoord_scaling        = com\<newline>'' @
        ''coulombtype             = PME\<newline>'' @
        ''rcoulomb                = 1.0\<newline>'' @
        ''fourierspacing          = 0.12\<newline>'' @
        ''pme_order               = 4\<newline>'' @
        ''constraints             = h-bonds\<newline>''),
      (''md.mdp'',
        ''integrator              = md\<newline>'' @
        ''dt                      = 0.001\<newline>'' @
        ''nsteps                  = '' @ str_int steps @ ''\<newline>'' @
        ''nstxout-compressed      = 5000\<newline>'' @
        ''tcoupl                  = v-rescale\<newline>'' @
        ''tc-grps                 = Protein Non-Protein\<newline>'' @
        ''tau_t                   = 0.1     0.1\<newline>'' @
        ''ref_t                   = '' @ py_str temp @ ''     '' @ py_str temp @ ''\<newline>'' @
        ''pcoupl                  = c-rescale\<newline>'' @
        ''pcoupltype              = isotropic\<newline>'' @
        ''tau_p                   = 2.0\<newline>'' @
        ''ref_p                   = 1.0\<newline>'' @
        ''compressibility         = 4.5e-5\<newline>'' @
        ''coulombtype             = PME\<newline>'' @
        ''rcoulomb                = 1.0\<newline>'' @
        ''fourierspacing          = 0.12\<newline>'' @
        ''pme_order               = 4\<newline>'' @
        ''vdw-type                = Cut-off\<newline>'' @
        ''rvdw                    = 1.0\<newline>'' @
        ''compressed-x-grps       = Protein\<newline>'')]"

text \<open>
  Lines 90 to 93: the loop opens each file for writing, which empties it, and writes the
  content. A file that cannot be opened ends the function with \<open>OSError\<close> and is left
  as it was; a content that the encoding of the file cannot encode ends it with
  \<open>UnicodeEncodeError\<close> and leaves the opened file empty. In both cases the files before
  it are already written and the files after it are untouched. The message is printed after
  the last file.
\<close>

definition can_encode :: "env \<Rightarrow> string \<Rightarrow> bool" where
  "can_encode E s = list_all (\<lambda>c. (of_char c :: nat) < 128 \<or> encodable E c) s"

fun write_all :: "env \<Rightarrow> (string \<times> string) list \<Rightarrow> unit action" where
  "write_all E [] w = (Inr (), w)"
| "write_all E ((filename, content) # rest) w =
     (if \<not> writable E filename then (Inl OSError, w)
      else if \<not> can_encode E content
      then (Inl UnicodeEncodeError, w\<lparr>files := (files w)(filename \<mapsto> [])\<rparr>)
      else write_all E rest (w\<lparr>files := (files w)(filename \<mapsto> content)\<rparr>))"

definition write_mdp_files :: "env \<Rightarrow> pyobj \<Rightarrow> pyfloat \<Rightarrow> unit action" where
  "write_mdp_files E temp ns_length =
     bnd (raise_or_return (total_steps ns_length)) (\<lambda>steps.
     bnd (write_all E (mdp_content temp steps)) (\<lambda>u.
     print ''Successfully generated all .mdp files.''))"

section \<open>The command runner\<close>

text \<open>
  Lines 95 to 107. \<^verbatim>\<open>subprocess.run(..., check=True)\<close> raises
  \<^verbatim>\<open>CalledProcessError\<close> for every exit status other than 0; the handler prints the
  exception and calls \<^verbatim>\<open>exit(1)\<close>. \<open>called_process_error_str\<close> is the text of
  the exception: a negative status stands for a signal, named by the platform.
  \<open>step_message\<close> is the line the handler prints.
\<close>

definition called_process_error_str :: "env \<Rightarrow> string \<Rightarrow> int \<Rightarrow> string" where
  "called_process_error_str E cmd returncode =
     (if returncode < 0
      then (case signal_repr E (- returncode) of
              Some r \<Rightarrow> ''Command '' @ [CHR 0x27] @ cmd @ [CHR 0x27] @ '' died with '' @ r @ ''.''
            | None \<Rightarrow> ''Command '' @ [CHR 0x27] @ cmd @ [CHR 0x27] @ '' died with unknown signal ''
                       @ str_int (- returncode) @ ''.'')
      else ''Command '' @ [CHR 0x27] @ cmd @ [CHR 0x27] @ '' returned non-zero exit status ''
             @ str_int returncode @ ''.'')"

definition step_message :: "env \<Rightarrow> string \<Rightarrow> int \<Rightarrow> string" where
  "step_message E command returncode =
     ''Error during execution: '' @ called_process_error_str E command returncode @ [CHR 0x0A]"

definition run_step :: "env \<Rightarrow> string \<Rightarrow> string option \<Rightarrow> unit action" where
  "run_step E command input_val w =
     (let (returncode, fs) = shell E command input_val (files w);
          w' = w\<lparr>files := fs, invoked := invoked w @ [(command, input_val, returncode)]\<rparr>
      in if returncode = 0 then (Inr (), w')
         else bnd (print (''Error during execution: '' @ called_process_error_str E command returncode))
                (\<lambda>u. raise_or_return (Inl (SystemExit 1))) w')"

text \<open>
  The script body calls \<^verbatim>\<open>run_step\<close> thirteen times in a row; \<open>run_steps\<close> runs
  a list of calls in order and stops at the first one that raises.
\<close>

fun run_steps :: "env \<Rightarrow> (string \<times> string option) list \<Rightarrow> unit action" where
  "run_steps E [] w = (Inr (), w)"
| "run_steps E ((command, input_val) # rest) w =
     bnd (run_step E command input_val) (\<lambda>u. run_steps E rest) w"

section \<open>The workflow\<close>

text \<open>
  Lines 110 to 145. \<open>step0\<close> is the part up to the call of \<^verbatim>\<open>write_mdp_files\<close>:
  both prompts are answered before \<^verbatim>\<open>float(user_ns)\<close> is evaluated, and that is
  evaluated before the call. \<open>pipeline\<close> lists the commands of the steps 1 to 5 with the
  standard input given to each, and \<open>main\<close> is the whole script.
\<close>

definition step0 :: "env \<Rightarrow> (pyobj \<times> pyobj) action" where
  "step0 E =
     bnd (input ''Enter simulation temperature (default 298): '') (\<lambda>l1.
     bnd (input ''Enter simulation length in ns (default 50): '') (\<lambda>l2.
     let user_temp = or_default l1 298; user_ns = or_default l2 50 in
     bnd (raise_or_return (py_float user_ns)) (\<lambda>ns_length.
     bnd (write_mdp_files E user_temp ns_length) (\<lambda>u.
     raise_or_return (Inr (user_temp, user_ns))))))"

definition pipeline :: "string \<Rightarrow> pyobj \<Rightarrow> (string \<times> string option) list" where
  "pipeline pdb_name user_ns =
     [(''gmx_mpi pdb2gmx -f '' @ pdb_name @ ''.pdb -o protein_processed.gro -water tips3p -ignh'',
         Some ''8''),
      (''gmx_mpi editconf -f protein_processed.gro -o box.gro -c -d 1.0 -bt cubic'', None),
      (''gmx_mpi solvate -cp box.gro -cs spc216.gro -o solvated.gro -p topol.top'', None),
      (''gmx_mpi grompp -f ions.mdp -c solvated.gro -p topol.top -o ions.tpr'', None),
      (''gmx_mpi genion -s ions.tpr -o ions.gro -p topol.top -pname NA -nname CL -neutral'',
         Some ''13''),
      (''gmx_mpi grompp -f minim.mdp -c ions.gro -p topol.top -o em.tpr'', None),
      (''gmx_mpi mdrun -v -deffnm em'', None),
      (''gmx_mpi grompp -f nvt.mdp -c em.gro -r em.gro -p topol.top -o nvt.tpr'', None),
      (''gmx_mpi mdrun -v -deffnm nvt'', None),
      (''gmx_mpi grompp -f npt.mdp -c nvt.gro -r nvt.gro -t nvt.cpt -p topol.top -o npt.tpr'', None),
      (''gmx_mpi mdrun -v -deffnm npt'', None),
      (''gmx_mpi grompp -f md.mdp -c npt.gro -t npt.cpt -p topol.top -o md_'' @ py_str user_ns
         @ ''ns.tpr'', None),
      (''gmx_mpi mdrun -v -deffnm md_'' @ py_str user_ns @ ''ns'', None)]"

definition main :: "env \<Rightarrow> unit action" where
  "main E =
     bnd (step0 E) (\<lambda>(user_temp, user_ns).
     bnd (input ''PDB file name (without .pdb): '') (\<lambda>l3.
     let pdb_name = strip l3 in
     bnd (run_steps E (pipeline pdb_name user_ns)) (\<lambda>u.
     print (''\<newline>Simulation complete for '' @ py_str user_ns @ ''ns at '' @ py_str user_temp
            @ ''K!''))))"

section \<open>Reading the generated files\<close>

text \<open>
  Vocabulary for statements about the files. \<open>mdp_text temp steps name\<close> is the content
  the writer gives to the file \<open>name\<close>. \<open>key_lines key content\<close> are the lines of a
  file whose first word is \<open>key\<close>. \<open>ref_t_line v\<close> is the line that sets both
  reference temperatures to \<open>v\<close>. A file uses the temperature (the step count) when
  changing only the temperature (the step count) can change its content.
\<close>

definition mdp_text :: "pyobj \<Rightarrow> int \<Rightarrow> string \<Rightarrow> string option" where
  "mdp_text temp steps name = map_of (mdp_content temp steps) name"

fun lines_from :: "string \<Rightarrow> string \<Rightarrow> string list" where
  "lines_from cur [] = (if cur = [] then [] else [cur])"
| "lines_from cur (c # cs) =
     (if c = CHR 0x0A then cur # lines_from [] cs else lines_from (cur @ [c]) cs)"

definition key_lines :: "string \<Rightarrow> string \<Rightarrow> string list" where
  "key_lines key content = filter (\<lambda>l. takeWhile (\<lambda>c. c \<noteq> CHR '' '') l = key) (lines_from [] content)"

definition ref_t_line :: "string \<Rightarrow> string" where
  "ref_t_line v = ''ref_t                   = '' @ v @ ''     '' @ v"

definition uses_temp :: "string \<Rightarrow> bool" where
  "uses_temp name \<longleftrightarrow> (\<exists>t t' n. mdp_text t n name \<noteq> mdp_text t' n name)"

definition uses_steps :: "string \<Rightarrow> bool" where
  "uses_steps name \<longleftrightarrow> (\<exists>t n n'. mdp_text t n name \<noteq> mdp_text t n' name)"

section \<open>Sample surroundings\<close>

text \<open>
  Concrete surroundings for running the model: every command succeeds and leaves the files
  alone, or one given command fails with a given status; every file can be opened; the
  files are written in an encoding that has every character, or in ASCII; nothing has been
  written yet.
\<close>

definition all_ok_env :: env where
  "all_ok_env = \<lparr>shell = (\<lambda>command input_val fs. (0, fs)),
                  writable = (\<lambda>name. True),
                  encodable = (\<lambda>c. True),
                  signal_repr = (\<lambda>n. None)\<rparr>"

definition ascii_files_env :: env where
  "ascii_files_env = \<lparr>shell = (\<lambda>command input_val fs. (0, fs)),
                       writable = (\<lambda>name. True),
                       encodable = (\<lambda>c. False),
                       signal_repr = (\<lambda>n. None)\<rparr>"

definition failing_env :: "string \<Rightarrow> int \<Rightarrow> env" where
  "failing_env bad returncode =
     \<lparr>shell = (\<lambda>command input_val fs. (if command = bad then returncode else 0, fs)),
      writable = (\<lambda>name. True),
      encodable = (\<lambda>c. True),
      signal_repr = (\<lambda>n. None)\<rparr>"

definition start_world :: "string list \<Rightarrow> world" where
  "start_world typed = \<lparr>stdin = typed, stdout = [], files = Map.empty, invoked = []\<rparr>"

section \<open>Properties of the model\<close>

subsection \<open>Sequencing\<close>

lemma bnd_Inr: "m w = (Inr x, w') \<Longrightarrow> bnd m f w = f x w'"
  by (simp add: bnd_def)

lemma bnd_Inl: "m w = (Inl e, w') \<Longrightarrow> bnd m f w = (Inl e, w')"
  by (simp add: bnd_def)

lemma bnd_return [simp]: "bnd (raise_or_return (Inr x)) f w = f x w"
  by (simp add: bnd_def raise_or_return_def)

lemma bnd_raise [simp]: "bnd (raise_or_return (Inl e)) f w = (Inl e, w)"
  by (simp add: bnd_def raise_or_return_def)

lemma bnd_print [simp]:
  "bnd (print s) f w = f () (w\<lparr>stdout := stdout w @ [s @ [CHR 0x0A]]\<rparr>)"
  by (simp add: bnd_def print_def)

lemma bnd_input_Cons:
  "stdin w = l # ls \<Longrightarrow>
   bnd (input p) f w = f l (w\<lparr>stdin := ls, stdout := stdout w @ [p]\<rparr>)"
  by (simp add: bnd_def input_def)

lemma bnd_input_Nil:
  "stdin w = [] \<Longrightarrow> bnd (input p) f w = (Inl EOFError, w\<lparr>stdout := stdout w @ [p]\<rparr>)"
  by (simp add: bnd_def input_def)

lemma bnd_cases:
  assumes "bnd m f w = (r, w')"
  obtains (fail) e where "m w = (Inl e, w')" and "r = Inl e"
        | (ok) x w1 where "m w = (Inr x, w1)" and "f x w1 = (r, w')"
  using assms by (auto simp: bnd_def split: prod.splits sum.splits)

subsection \<open>Decimal text of integers\<close>

lemma digit_char_is_digit: "d < 10 \<Longrightarrow> is_digit (digit_char d)"
proof -
  assume "d < 10"
  then have "d \<in> {0, 1, 2, 3, 4, 5, 6, 7, 8, 9}" by auto
  then show ?thesis by (auto simp: is_digit_def digit_char_def)
qed

lemma str_nat_numeral:
  "str_nat (numeral k) =
     (if numeral k < (10::nat) then [digit_char (numeral k)]
      else str_nat (numeral k div 10) @ [digit_char (numeral k mod 10)])"
  by (rule str_nat.simps)

lemma str_nat_0: "str_nat 0 = ''0''"
  by (simp add: str_nat.simps [of 0] digit_char_def)

lemma str_nat_1: "str_nat (Suc 0) = ''1''"
  by (simp add: str_nat.simps [of "Suc 0"] digit_char_def)

lemmas str_int_eval = str_int_def str_nat_numeral str_nat_0 str_nat_1 digit_char_def

lemma str_nat_digits: "c \<in> set (str_nat n) \<Longrightarrow> is_digit c"
proof (induction n rule: str_nat.induct)
  case (1 n)
  show ?case
  proof (cases "n < 10")
    case True
    with "1.prems" show ?thesis
      by (simp add: str_nat.simps [of n] digit_char_is_digit)
  next
    case False
    with "1.prems" "1.IH" show ?thesis
      by (auto simp: str_nat.simps [of n] digit_char_is_digit)
  qed
qed

lemma str_int_chars: "c \<in> set (str_int i) \<Longrightarrow> is_digit c \<or> c = CHR ''-''"
  by (auto simp: str_int_def dest: str_nat_digits split: if_splits)

lemma str_int_no_newline [simp]: "CHR 0x0A \<notin> set (str_int i)"
  using str_int_chars [of "CHR 0x0A" i] by (auto simp: is_digit_def)

lemma str_int_no_space [simp]: "CHR '' '' \<notin> set (str_int i)"
  using str_int_chars [of "CHR '' ''" i] by (auto simp: is_digit_def)

lemma str_int_4099999: "str_int 4099999 = ''4099999''"
  by (simp add: str_int_eval)

subsection \<open>Rounding to binary64\<close>

lemma two_powi_nat: "0 \<le> k \<Longrightarrow> (2::rat) powi k = of_int (2 ^ nat k)"
  by (simp add: power_int_def)

lemma binexp_frac_bounds:
  fixes a b :: int
  assumes a: "0 < a" and b: "0 < b"
  shows "(2::rat) powi (bitlen a - bitlen b - 1) \<le> of_int a / of_int b"
    and "of_int a / of_int b < (2::rat) powi (bitlen a - bitlen b + 1)"
proof -
  have la: "1 \<le> bitlen a" and lb: "1 \<le> bitlen b"
    using a b by (simp_all add: bitlen_alt_def)
  have a1: "(2::rat) powi (bitlen a - 1) \<le> of_int a"
    using bitlen_bounds [OF a] la
    by (metis (no_types) diff_ge_0_iff_ge of_int_le_iff two_powi_nat)
  have a2: "of_int a < (2::rat) powi (bitlen a)"
    using bitlen_bounds [OF a] la
    by (metis (no_types) of_int_less_iff two_powi_nat order_trans zero_le_one)
  have b1: "(2::rat) powi (bitlen b - 1) \<le> of_int b"
    using bitlen_bounds [OF b] lb
    by (metis (no_types) diff_ge_0_iff_ge of_int_le_iff two_powi_nat)
  have b2: "of_int b < (2::rat) powi (bitlen b)"
    using bitlen_bounds [OF b] lb
    by (metis (no_types) of_int_less_iff two_powi_nat order_trans zero_le_one)
  have bpos: "(0::rat) < of_int b" using b by simp
  have "(2::rat) powi (bitlen a - bitlen b - 1) * of_int b
          \<le> 2 powi (bitlen a - bitlen b - 1) * 2 powi (bitlen b)"
    using b2 by (intro mult_left_mono) auto
  also have "\<dots> = 2 powi (bitlen a - 1)"
    by (simp add: power_int_add [symmetric])
  also have "\<dots> \<le> of_int a" by (rule a1)
  finally show "(2::rat) powi (bitlen a - bitlen b - 1) \<le> of_int a / of_int b"
    using bpos by (simp add: pos_le_divide_eq)
  have "of_int a < (2::rat) powi (bitlen a)" by (rule a2)
  also have "\<dots> = 2 powi (bitlen a - bitlen b + 1) * 2 powi (bitlen b - 1)"
    by (simp add: power_int_add [symmetric])
  also have "\<dots> \<le> 2 powi (bitlen a - bitlen b + 1) * of_int b"
    using b1 by (intro mult_left_mono) auto
  finally show "of_int a / of_int b < (2::rat) powi (bitlen a - bitlen b + 1)"
    using bpos by (simp add: pos_divide_less_eq)
qed

lemma binexp_bounds:
  assumes "q \<noteq> 0"
  shows "2 powi (binexp q) \<le> \<bar>q\<bar>" and "\<bar>q\<bar> < 2 powi (binexp q + 1)"
proof -
  obtain a b where ab: "quotient_of \<bar>q\<bar> = (a, b)" by (cases "quotient_of \<bar>q\<bar>")
  have b: "0 < b" using ab quotient_of_denom_pos by blast
  have q: "\<bar>q\<bar> = of_int a / of_int b" using ab by (rule quotient_of_div)
  have "0 < \<bar>q\<bar>" using assms by simp
  then have a: "0 < a" using q b by (simp add: zero_less_divide_iff)
  note bnd = binexp_frac_bounds [OF a b, folded q]
  show "2 powi (binexp q) \<le> \<bar>q\<bar>"
    using bnd by (simp add: binexp_def ab Let_def)
  show "\<bar>q\<bar> < 2 powi (binexp q + 1)"
    using bnd by (auto simp add: binexp_def ab Let_def not_le)
qed

lemma binexp_unique:
  assumes "2 powi e \<le> \<bar>q\<bar>" and "\<bar>q\<bar> < 2 powi (e + 1)"
  shows "binexp q = e"
proof -
  have q0: "q \<noteq> 0"
  proof
    assume "q = 0"
    with assms(1) have "(2::rat) powi e \<le> 0" by simp
    moreover have "(0::rat) < 2 powi e" by simp
    ultimately show False by linarith
  qed
  note b = binexp_bounds [OF q0]
  have "(2::rat) powi e < 2 powi (binexp q + 1)" using assms(1) b(2) by simp
  then have 1: "e < binexp q + 1"
    using power_int_increasing [of "binexp q + 1" e "2::rat"] by (cases "e < binexp q + 1") auto
  have "(2::rat) powi (binexp q) < 2 powi (e + 1)" using assms(2) b(1) by simp
  then have 2: "binexp q < e + 1"
    using power_int_increasing [of "e + 1" "binexp q" "2::rat"] by (cases "binexp q < e + 1") auto
  from 1 2 show ?thesis by simp
qed

lemma round_half_even_of_int: "round_half_even (of_int n) = n"
  by (simp add: round_half_even_def)

lemma round_double_exact:
  assumes "\<bar>n\<bar> \<le> 2 ^ 53"
  shows "round_double (of_int n) = Finite (of_int n)"
proof (cases "n = 0")
  case True
  then show ?thesis by (simp add: round_double_def)
next
  case False
  define q :: rat where "q = of_int n"
  define qe where "qe = max (binexp q - 52) (- 1074)"
  have q0: "q \<noteq> 0" using False by (simp add: q_def)
  have "2 powi (binexp q) \<le> \<bar>q\<bar>" by (rule binexp_bounds [OF q0])
  also have "\<bar>q\<bar> \<le> 2 powi 53"
    using assms by (simp add: q_def flip: of_int_abs) 
  finally have "(2::rat) powi (binexp q) \<le> 2 powi 53" .
  from power_int_le_imp_le_exp [OF _ this] have e53: "binexp q \<le> 53" by simp
  have "\<exists>m. q / 2 powi qe = of_int m"
  proof (cases "qe \<le> 0")
    case True
    then have "q / 2 powi qe = of_int (n * 2 ^ nat (- qe))"
      by (simp add: q_def power_int_def field_simps)
    then show ?thesis by blast
  next
    case False
    with e53 have qe1: "qe = 1" and e: "binexp q = 53" by (auto simp: qe_def)
    have "2 powi 53 \<le> \<bar>q\<bar>" using binexp_bounds(1) [OF q0] e by simp
    with assms have "\<bar>n\<bar> = 2 ^ 53" by (simp add: q_def flip: of_int_abs)
    then have "n = 2 ^ 53 \<or> n = - (2 ^ 53)" by linarith
    then have "q / 2 powi qe = of_int (n div 2)"
      by (auto simp: q_def qe1)
    then show ?thesis by blast
  qed
  then obtain m where m: "q / 2 powi qe = of_int m" by blast
  have "q = of_int m * 2 powi qe"
    using m by (simp add: field_simps)
  then have r: "of_int (round_half_even (q / 2 powi qe)) * 2 powi qe = q"
    by (simp add: m round_half_even_of_int)
  have "\<bar>q\<bar> < 2 powi 1024"
    using assms by (simp add: q_def flip: of_int_abs) 
  then show ?thesis
    using q0 r by (simp add: round_double_def Let_def flip: q_def qe_def)
qed

lemma round_double_eqI:
  assumes "2 powi e \<le> \<bar>q\<bar>" and "\<bar>q\<bar> < 2 powi (e + 1)"
    and "round_half_even (q / 2 powi (max (e - 52) (- 1074))) = n"
    and "\<bar>of_int n * 2 powi (max (e - 52) (- 1074))\<bar> < (2::rat) powi 1024"
  shows "round_double q = Finite (of_int n * 2 powi (max (e - 52) (- 1074)))"
proof -
  have e: "binexp q = e" using assms(1,2) by (rule binexp_unique)
  have "(0::rat) < 2 powi e" by simp
  with assms(1) have "q \<noteq> 0" by linarith
  then show ?thesis
    using assms(3,4) by (simp add: round_double_def e Let_def del: power_int_numeral)
qed

lemma round_half_even_eqI:
  assumes "of_int n - 1 / 2 < x" and "x < of_int n + 1 / 2"
  shows "round_half_even x = n"
proof (cases "of_int n \<le> x")
  case True
  with assms(2) have "\<lfloor>x\<rfloor> = n" by (intro floor_unique) simp_all
  with assms(2) show ?thesis by (simp add: round_half_even_def Let_def)
next
  case False
  with assms(1) have "\<lfloor>x\<rfloor> = n - 1" by (intro floor_unique) simp_all
  with assms(1) False show ?thesis by (simp add: round_half_even_def Let_def)
qed

lemma floor_rat_numeral [simp]: "\<lfloor>numeral a / numeral b :: rat\<rfloor> = numeral a div numeral b"
  by (metis floor_divide_of_int_eq of_int_numeral)

lemma ceiling_rat_neg_numeral [simp]:
  "\<lceil>- (numeral a / numeral b) :: rat\<rceil> = - (numeral a div numeral b)"
  by (metis ceiling_def floor_rat_numeral minus_minus)

lemma round_double_numeral:
  "numeral k \<le> (2::int) ^ 53 \<Longrightarrow> round_double (numeral k) = Finite (numeral k)"
  using round_double_exact [of "numeral k"] by simp

lemma trunc_of_int: "trunc (of_int m) = m"
  by (simp add: trunc_def)

lemma total_steps_whole:
  assumes "\<bar>n\<bar> * 1000000 \<le> 2 ^ 53"
  shows "total_steps (Finite (of_int n)) = Inr (n * 1000000)"
proof -
  have "round_double (of_int (n * 1000000)) = Finite (of_int (n * 1000000))"
    using assms by (intro round_double_exact) (simp add: abs_mult)
  moreover have "float_mul (Finite (of_int n)) (Finite 1000000)
      = round_double (of_int (n * 1000000))"
    by simp
  ultimately show ?thesis
    by (simp only: total_steps_def py_int.simps trunc_of_int)
qed

lemma py_float_50: "py_float (IntObj 50) = Inr (Finite 50)"
  by (simp add: round_double_numeral)

lemma total_steps_50: "total_steps (Finite 50) = Inr 50000000"
  using total_steps_whole [of 50] by simp

lemma total_steps_100: "total_steps (Finite 100) = Inr 100000000"
  using total_steps_whole [of 100] by simp

subsection \<open>Particular input lines\<close>

lemma parse41: "parse_number ''4.1'' = Some (41 / 10)"
  by (simp add: parse_number_def parse_exponent_def is_digit_def nat_of_digits_def digit_val_def)

lemma float41: "float_of_string ''4.1'' = Some (Finite (2308094809027379 / 562949953421312))"
proof -
  have "round_double (41 / 10) = Finite (of_int 4616189618054758 * 2 powi (max (2 - 52) (- 1074)))"
    by (rule round_double_eqI) (simp_all add: round_half_even_eqI) 
  then have "round_double (41 / 10) = Finite (2308094809027379 / 562949953421312)"
    by simp
  moreover have "drop_underscores (CHR 0x00) ''4.1'' = Some ''4.1''"
    by (simp add: is_digit_def)
  ultimately show ?thesis
    by (simp add: float_of_string_def strip_ascii_def to_ascii_def is_ascii_space_def
        parse_float_body_def split_sign_def lower_def parse41)
qed

lemma steps41: "total_steps (Finite (2308094809027379 / 562949953421312)) = Inr 4099999"
proof -
  have "round_double (2308094809027379 / 562949953421312 * 1000000)
      = Finite (of_int 8804682956799999 * 2 powi (max (21 - 52) (- 1074)))"
    by (rule round_double_eqI) (simp_all add: round_half_even_eqI)
  then show ?thesis
    by (simp add: total_steps_def trunc_def)
qed

lemma float_of_string_abc: "float_of_string ''abc'' = None"
  by (simp add: float_of_string_def strip_ascii_def to_ascii_def is_ascii_space_def is_digit_def
      parse_float_body_def split_sign_def lower_def parse_number_def)

lemma strip_abc: "strip ''  abc '' = ''abc''"
  by (simp add: strip_def is_space_def)

subsection \<open>The loop that writes the files\<close>

lemma write_all_frame:
  "write_all E cs w = (r, w') \<Longrightarrow>
   stdin w' = stdin w \<and> stdout w' = stdout w \<and> invoked w' = invoked w \<and>
   (\<forall>name. name \<notin> fst ` set cs \<longrightarrow> files w' name = files w name)"
proof (induction cs arbitrary: w)
  case Nil
  then show ?case by simp
next
  case (Cons a cs)
  obtain f c where a: "a = (f, c)" by (cases a)
  show ?case
  proof (cases "writable E f \<and> can_encode E c")
    case True
    with Cons.prems a
    have "write_all E cs (w\<lparr>files := (files w)(f \<mapsto> c)\<rparr>) = (r, w')" by simp
    from Cons.IH [OF this] show ?thesis by (auto simp: a)
  next
    case False
    with Cons.prems a show ?thesis by (auto split: if_splits)
  qed
qed

lemma write_all_success:
  "write_all E cs w = (Inr (), w') \<longleftrightarrow>
   (\<forall>name \<in> fst ` set cs. writable E name) \<and>
   (\<forall>content \<in> snd ` set cs. can_encode E content) \<and>
   w' = w\<lparr>files := files w ++ map_of (rev cs)\<rparr>"
proof (induction cs arbitrary: w)
  case Nil
  then show ?case by auto
next
  case (Cons a cs)
  obtain f c where a: "a = (f, c)" by (cases a)
  show ?case
    by (cases "writable E f"; cases "can_encode E c")
      (auto simp: a Cons.IH map_add_def fun_eq_iff split: option.splits)
qed

lemma can_encode_append [simp]:
  "can_encode E (xs @ ys) \<longleftrightarrow> can_encode E xs \<and> can_encode E ys"
  by (simp add: can_encode_def)

lemma can_encode_Cons [simp]:
  "can_encode E (c # cs) \<longleftrightarrow> ((of_char c :: nat) < 128 \<or> encodable E c) \<and> can_encode E cs"
  by (simp add: can_encode_def)

lemma can_encode_Nil [simp]: "can_encode E []"
  by (simp add: can_encode_def)

lemma can_encode_str_int [simp]: "can_encode E (str_int i)"
proof -
  have "(of_char c :: nat) < 128" if "c \<in> set (str_int i)" for c
    using str_int_chars [OF that] by (auto simp: is_digit_def)
  then show ?thesis by (simp add: can_encode_def list_all_iff)
qed

lemma mdp_content_encodable:
  "(\<forall>content \<in> snd ` set (mdp_content temp steps). can_encode E content)
     \<longleftrightarrow> can_encode E (py_str temp)"
  by (simp add: mdp_content_def)

lemma map_of_rev_distinct: "distinct (map fst xs) \<Longrightarrow> map_of (rev xs) = map_of xs"
proof (induction xs)
  case Nil
  then show ?case by simp
next
  case (Cons a xs)
  then have "fst a \<notin> dom (map_of xs)" by (simp add: dom_map_of_conv_image_fst)
  then have "map_of [a] ++ map_of xs = map_of xs ++ map_of [a]"
    by (intro map_add_comm) auto
  with Cons show ?case by (cases a) simp
qed

lemma mdp_names:
  "map fst (mdp_content temp steps) = [''ions.mdp'', ''minim.mdp'', ''nvt.mdp'', ''npt.mdp'', ''md.mdp'']"
  by (simp add: mdp_content_def)

lemma mdp_names_distinct: "distinct (map fst (mdp_content temp steps))"
  unfolding mdp_names by simp

lemma mdp_names_set:
  "fst ` set (mdp_content temp steps) = {''ions.mdp'', ''minim.mdp'', ''nvt.mdp'', ''npt.mdp'', ''md.mdp''}"
  using arg_cong [OF mdp_names, of set temp steps] by simp

lemma write_mdp_files_success:
  "write_mdp_files E temp ns_length w = (Inr (), w') \<longleftrightarrow>
   (\<exists>steps. total_steps ns_length = Inr steps \<and>
      (\<forall>name \<in> fst ` set (mdp_content temp steps). writable E name) \<and>
      can_encode E (py_str temp) \<and>
      w' = w\<lparr>files := files w ++ map_of (mdp_content temp steps),
             stdout := stdout w @ [''Successfully generated all .mdp files.'' @ [CHR 0x0A]]\<rparr>)"
proof (cases "total_steps ns_length")
  case (Inl e)
  then show ?thesis by (simp add: write_mdp_files_def)
next
  case (Inr steps)
  have ws: "write_all E (mdp_content temp steps) w = (Inr (), v) \<longleftrightarrow>
      (\<forall>name \<in> fst ` set (mdp_content temp steps). writable E name) \<and>
      can_encode E (py_str temp) \<and>
      v = w\<lparr>files := files w ++ map_of (mdp_content temp steps)\<rparr>" for v
    unfolding write_all_success mdp_content_encodable map_of_rev_distinct [OF mdp_names_distinct] ..
  obtain r w1 where w1: "write_all E (mdp_content temp steps) w = (r, w1)"
    by (cases "write_all E (mdp_content temp steps) w")
  show ?thesis
  proof (cases r)
    case (Inl e)
    with w1 have "\<not> ((\<forall>name \<in> fst ` set (mdp_content temp steps). writable E name) \<and>
        can_encode E (py_str temp))"
      using ws [of "w\<lparr>files := files w ++ map_of (mdp_content temp steps)\<rparr>"] by auto
    with Inl w1 Inr show ?thesis by (auto simp: write_mdp_files_def bnd_Inl)
  next
    case r: (Inr u)
    with w1 have ok: "write_all E (mdp_content temp steps) w = (Inr (), w1)" by simp
    note facts = ok [unfolded ws]
    have "write_mdp_files E temp ns_length w
        = (Inr (), w1\<lparr>stdout := stdout w1 @ [''Successfully generated all .mdp files.'' @ [CHR 0x0A]]\<rparr>)"
      by (simp add: write_mdp_files_def Inr
          bnd_Inr [where m = "write_all E (mdp_content temp steps)", OF ok] print_def)
    with facts Inr show ?thesis by auto
  qed
qed

lemma write_mdp_files_frame:
  assumes "write_mdp_files E temp ns_length w = (r, w')"
    and "name \<notin> {''ions.mdp'', ''minim.mdp'', ''nvt.mdp'', ''npt.mdp'', ''md.mdp''}"
  shows "files w' name = files w name"
proof (cases "total_steps ns_length")
  case (Inl e)
  with assms(1) show ?thesis by (simp add: write_mdp_files_def)
next
  case (Inr steps)
  obtain r1 w1 where w1: "write_all E (mdp_content temp steps) w = (r1, w1)"
    by (cases "write_all E (mdp_content temp steps) w")
  from write_all_frame [OF this] assms(2)
  have "files w1 name = files w name" by (simp add: mdp_names_set)
  moreover have "files w' = files w1"
    using assms(1) Inr w1 by (cases r1) (auto simp: write_mdp_files_def bnd_Inl bnd_Inr print_def)
  ultimately show ?thesis by simp
qed

lemma mdp_text_Some:
  "name \<in> {''ions.mdp'', ''minim.mdp'', ''nvt.mdp'', ''npt.mdp'', ''md.mdp''} \<Longrightarrow>
   \<exists>c. mdp_text temp steps name = Some c"
  using map_of_eq_None_iff [of "mdp_content temp steps" name]
  unfolding mdp_text_def mdp_names_set by (cases "map_of (mdp_content temp steps) name") auto

lemma mdp_text_other:
  "name \<notin> {''ions.mdp'', ''minim.mdp'', ''nvt.mdp'', ''npt.mdp'', ''md.mdp''} \<Longrightarrow>
   mdp_text temp steps name = None"
  unfolding mdp_text_def map_of_eq_None_iff mdp_names_set .

subsection \<open>Lines and shape of the files\<close>

lemma lines_from_append:
  "CHR 0x0A \<notin> set v \<Longrightarrow> lines_from cur (v @ rest) = lines_from (cur @ v) rest"
  by (induction v arbitrary: cur) auto

lemma nvt_ref_t:
  "CHR 0x0A \<notin> set (py_str temp) \<Longrightarrow>
   key_lines ''ref_t'' (the (mdp_text temp steps ''nvt.mdp'')) = [ref_t_line (py_str temp)]"
  by (simp add: mdp_text_def mdp_content_def key_lines_def lines_from_append ref_t_line_def)

lemma npt_ref_t:
  "CHR 0x0A \<notin> set (py_str temp) \<Longrightarrow>
   key_lines ''ref_t'' (the (mdp_text temp steps ''npt.mdp'')) = [ref_t_line (py_str temp)]"
  by (simp add: mdp_text_def mdp_content_def key_lines_def lines_from_append ref_t_line_def)

lemma md_ref_t:
  "CHR 0x0A \<notin> set (py_str temp) \<Longrightarrow>
   key_lines ''ref_t'' (the (mdp_text temp steps ''md.mdp'')) = [ref_t_line (py_str temp)]"
  by (simp add: mdp_text_def mdp_content_def key_lines_def lines_from_append ref_t_line_def)

lemma md_nsteps:
  "CHR 0x0A \<notin> set (py_str temp) \<Longrightarrow>
   key_lines ''nsteps'' (the (mdp_text temp steps ''md.mdp''))
     = [''nsteps                  = '' @ str_int steps]"
  by (simp add: mdp_text_def mdp_content_def key_lines_def lines_from_append)

lemma nvt_shape:
  "\<exists>pre post. \<forall>temp. mdp_text temp steps ''nvt.mdp'' = Some (pre @ ref_t_line (py_str temp) @ post)"
  by (intro exI [of _ "''define                  = -DPOSRES\<newline>integrator              = md\<newline>dt                      = 0.001\<newline>nsteps                  = 50000\<newline>nstxout                 = 500\<newline>tcoupl                  = v-rescale\<newline>tc-grps                 = Protein Non-Protein\<newline>tau_t                   = 0.1     0.1\<newline>''"]
        exI [of _ "''\<newline>pcoupl                  = no\<newline>pbc                     = xyz\<newline>''"])
     (simp add: mdp_text_def mdp_content_def ref_t_line_def)

lemma npt_shape:
  "\<exists>pre post. \<forall>temp. mdp_text temp steps ''npt.mdp'' = Some (pre @ ref_t_line (py_str temp) @ post)"
  by (intro exI [of _ "''define                  = -DPOSRES\<newline>integrator              = md\<newline>dt                      = 0.001\<newline>nsteps                  = 50000\<newline>nstxout                 = 500\<newline>tcoupl                  = v-rescale\<newline>tc-grps                 = Protein Non-Protein\<newline>tau_t                   = 0.1     0.1\<newline>''"]
        exI [of _ "''\<newline>pcoupl                  = c-rescale\<newline>pcoupltype              = isotropic\<newline>tau_p                   = 2.0\<newline>compressibility         = 4.5e-5\<newline>ref_p                   = 1.0\<newline>refcoord_scaling        = com\<newline>coulombtype             = PME\<newline>rcoulomb                = 1.0\<newline>fourierspacing          = 0.12\<newline>pme_order               = 4\<newline>constraints             = h-bonds\<newline>''"])
     (simp add: mdp_text_def mdp_content_def ref_t_line_def)

lemma md_shape:
  "\<exists>pre post. \<forall>temp. mdp_text temp steps ''md.mdp'' = Some (pre @ ref_t_line (py_str temp) @ post)"
  by (intro exI [of _ "''integrator              = md\<newline>dt                      = 0.001\<newline>nsteps                  = '' @ str_int steps @ ''\<newline>nstxout-compressed      = 5000\<newline>tcoupl                  = v-rescale\<newline>tc-grps                 = Protein Non-Protein\<newline>tau_t                   = 0.1     0.1\<newline>''"]
        exI [of _ "''\<newline>pcoupl                  = c-rescale\<newline>pcoupltype              = isotropic\<newline>tau_p                   = 2.0\<newline>ref_p                   = 1.0\<newline>compressibility         = 4.5e-5\<newline>coulombtype             = PME\<newline>rcoulomb                = 1.0\<newline>fourierspacing          = 0.12\<newline>pme_order               = 4\<newline>vdw-type                = Cut-off\<newline>rvdw                    = 1.0\<newline>compressed-x-grps       = Protein\<newline>''"])
     (simp add: mdp_text_def mdp_content_def ref_t_line_def)

lemma ions_constant: "mdp_text temp steps ''ions.mdp'' = mdp_text temp' steps' ''ions.mdp''"
  by (simp add: mdp_text_def mdp_content_def)

lemma minim_constant: "mdp_text temp steps ''minim.mdp'' = mdp_text temp' steps' ''minim.mdp''"
  by (simp add: mdp_text_def mdp_content_def)

lemma nvt_steps_constant: "mdp_text temp steps ''nvt.mdp'' = mdp_text temp steps' ''nvt.mdp''"
  by (simp add: mdp_text_def mdp_content_def)

lemma npt_steps_constant: "mdp_text temp steps ''npt.mdp'' = mdp_text temp steps' ''npt.mdp''"
  by (simp add: mdp_text_def mdp_content_def)

lemma nvt_uses_temp: "mdp_text (StrObj ''298'') steps ''nvt.mdp'' \<noteq> mdp_text (StrObj ''310'') steps ''nvt.mdp''"
  by (simp add: mdp_text_def mdp_content_def)

lemma npt_uses_temp: "mdp_text (StrObj ''298'') steps ''npt.mdp'' \<noteq> mdp_text (StrObj ''310'') steps ''npt.mdp''"
  by (simp add: mdp_text_def mdp_content_def)

lemma md_uses_temp: "mdp_text (StrObj ''298'') 1 ''md.mdp'' \<noteq> mdp_text (StrObj ''310'') 1 ''md.mdp''"
  by (simp add: mdp_text_def mdp_content_def str_int_eval)

lemma md_uses_steps: "mdp_text temp 1 ''md.mdp'' \<noteq> mdp_text temp 2 ''md.mdp''"
  by (simp add: mdp_text_def mdp_content_def str_int_eval)

lemma uses_temp_names: "{name. uses_temp name} = {''nvt.mdp'', ''npt.mdp'', ''md.mdp''}"
proof -
  have "uses_temp ''nvt.mdp''" "uses_temp ''npt.mdp''" "uses_temp ''md.mdp''"
    unfolding uses_temp_def using nvt_uses_temp npt_uses_temp md_uses_temp by blast+
  moreover have "\<not> uses_temp name" if "name \<notin> {''nvt.mdp'', ''npt.mdp'', ''md.mdp''}" for name
  proof (cases "name = ''ions.mdp'' \<or> name = ''minim.mdp''")
    case True
    then show ?thesis unfolding uses_temp_def using ions_constant minim_constant by blast
  next
    case False
    with that have "mdp_text temp steps name = None" for temp steps
      by (intro mdp_text_other) simp
    then show ?thesis by (simp add: uses_temp_def)
  qed
  ultimately show ?thesis by blast
qed

lemma uses_steps_names: "{name. uses_steps name} = {''md.mdp''}"
proof -
  have "uses_steps ''md.mdp''"
    unfolding uses_steps_def using md_uses_steps by blast
  moreover have "\<not> uses_steps name" if "name \<noteq> ''md.mdp''" for name
  proof (cases "name \<in> {''ions.mdp'', ''minim.mdp'', ''nvt.mdp'', ''npt.mdp''}")
    case True
    then show ?thesis
      unfolding uses_steps_def
      using ions_constant minim_constant nvt_steps_constant npt_steps_constant by blast
  next
    case False
    with that have "mdp_text temp steps name = None" for temp steps
      by (intro mdp_text_other) simp
    then show ?thesis by (simp add: uses_steps_def)
  qed
  ultimately show ?thesis by blast
qed

subsection \<open>Step 0\<close>

lemma step0_two_lines:
  "stdin w = l1 # l2 # rest \<Longrightarrow>
   step0 E w =
     bnd (raise_or_return (py_float (or_default l2 50))) (\<lambda>ns_length.
     bnd (write_mdp_files E (or_default l1 298) ns_length) (\<lambda>u.
     raise_or_return (Inr (or_default l1 298, or_default l2 50))))
       (w\<lparr>stdin := rest,
          stdout := stdout w @ [''Enter simulation temperature (default 298): '',
                                ''Enter simulation length in ns (default 50): '']\<rparr>)"
  by (simp add: step0_def bnd_input_Cons Let_def)

lemma step0_success:
  assumes "stdin w = l1 # l2 # rest"
    and "py_float (or_default l2 50) = Inr x"
    and "total_steps x = Inr steps"
    and "\<forall>name \<in> {''ions.mdp'', ''minim.mdp'', ''nvt.mdp'', ''npt.mdp'', ''md.mdp''}. writable E name"
    and "can_encode E (py_str (or_default l1 298))"
  shows "\<exists>w1. step0 E w = (Inr (or_default l1 298, or_default l2 50), w1) \<and>
           files w1 = files w ++ map_of (mdp_content (or_default l1 298) steps) \<and>
           stdin w1 = rest \<and> invoked w1 = invoked w"
proof -
  let ?w0 = "w\<lparr>stdin := rest,
          stdout := stdout w @ [''Enter simulation temperature (default 298): '',
                                ''Enter simulation length in ns (default 50): '']\<rparr>"
  let ?w1 = "?w0\<lparr>files := files ?w0 ++ map_of (mdp_content (or_default l1 298) steps),
             stdout := stdout ?w0 @ [''Successfully generated all .mdp files.'' @ [CHR 0x0A]]\<rparr>"
  have "write_mdp_files E (or_default l1 298) x ?w0 = (Inr (), ?w1)"
    unfolding write_mdp_files_success mdp_names_set using assms(3,4,5) by blast
  then have "step0 E w = (Inr (or_default l1 298, or_default l2 50), ?w1)"
    by (simp add: step0_two_lines [OF assms(1)] assms(2) bnd_Inr raise_or_return_def)
  then show ?thesis by simp
qed

lemma step0_defaults:
  assumes "\<forall>name \<in> {''ions.mdp'', ''minim.mdp'', ''nvt.mdp'', ''npt.mdp'', ''md.mdp''}. writable E name"
    and "stdin w = [] # [] # rest"
  shows "\<exists>w1. step0 E w = (Inr (IntObj 298, IntObj 50), w1) \<and>
           files w1 = files w ++ map_of (mdp_content (IntObj 298) 50000000) \<and>
           stdin w1 = rest \<and> invoked w1 = invoked w"
proof -
  have f: "py_float (or_default [] 50) = Inr (Finite 50)"
    by (simp add: or_default_def round_double_numeral)
  have e: "can_encode E (py_str (or_default [] 298))"
    by (simp add: or_default_def)
  from step0_success [OF assms(2) f total_steps_50 assms(1) e] show ?thesis
    by (simp add: or_default_def)
qed

subsection \<open>Running the external commands\<close>

lemma run_step_ok:
  "shell E command input_val (files w) = (0, fs) \<Longrightarrow>
   run_step E command input_val w
     = (Inr (), w\<lparr>files := fs, invoked := invoked w @ [(command, input_val, 0)]\<rparr>)"
  by (simp add: run_step_def)

lemma run_step_failed:
  "shell E command input_val (files w) = (returncode, fs) \<Longrightarrow> returncode \<noteq> 0 \<Longrightarrow>
   run_step E command input_val w
     = (Inl (SystemExit 1),
        w\<lparr>files := fs, invoked := invoked w @ [(command, input_val, returncode)],
          stdout := stdout w @ [step_message E command returncode]\<rparr>)"
  by (simp add: run_step_def step_message_def raise_or_return_def)

lemma run_steps_log:
  "run_steps E cs w = (r, w') \<Longrightarrow>
   \<exists>new. invoked w' = invoked w @ new \<and>
     map (\<lambda>(c, i, rc). (c, i)) new = take (length new) cs \<and>
     ((r = Inr () \<and> (\<forall>e \<in> set new. snd (snd e) = 0) \<and> length new = length cs)
      \<or> (\<exists>old c i rc. r = Inl (SystemExit 1) \<and> new = old @ [(c, i, rc)] \<and>
             (\<forall>e \<in> set old. snd (snd e) = 0) \<and> rc \<noteq> 0 \<and>
             stdout w' = stdout w @ [step_message E c rc]))"
proof (induction cs arbitrary: w)
  case Nil
  then show ?case by simp
next
  case (Cons a cs)
  obtain c i where a: "a = (c, i)" by (cases a)
  obtain rc fs where sh: "shell E c i (files w) = (rc, fs)" by (cases "shell E c i (files w)")
  show ?case
  proof (cases "rc = 0")
    case True
    let ?w1 = "w\<lparr>files := fs, invoked := invoked w @ [(c, i, 0)]\<rparr>"
    from sh True have "run_step E c i w = (Inr (), ?w1)" by (simp add: run_step_ok)
    with Cons.prems have "run_steps E cs ?w1 = (r, w')" by (simp add: a bnd_Inr)
    from Cons.IH [OF this] obtain new where
      new: "invoked w' = invoked ?w1 @ new"
        "map (\<lambda>(c, i, rc). (c, i)) new = take (length new) cs"
        "(r = Inr () \<and> (\<forall>e \<in> set new. snd (snd e) = 0) \<and> length new = length cs)
         \<or> (\<exists>old c i rc. r = Inl (SystemExit 1) \<and> new = old @ [(c, i, rc)] \<and>
             (\<forall>e \<in> set old. snd (snd e) = 0) \<and> rc \<noteq> 0 \<and>
             stdout w' = stdout ?w1 @ [step_message E c rc])"
      by blast
    from new(3) show ?thesis
    proof
      assume "r = Inr () \<and> (\<forall>e \<in> set new. snd (snd e) = 0) \<and> length new = length cs"
      with new(1,2) show ?thesis
        by (intro exI [of _ "(c, i, 0) # new"]) (simp add: a)
    next
      assume "\<exists>old c i rc. r = Inl (SystemExit 1) \<and> new = old @ [(c, i, rc)] \<and>
             (\<forall>e \<in> set old. snd (snd e) = 0) \<and> rc \<noteq> 0 \<and>
             stdout w' = stdout ?w1 @ [step_message E c rc]"
      then obtain old c' i' rc' where o: "r = Inl (SystemExit 1)" "new = old @ [(c', i', rc')]"
        "\<forall>e \<in> set old. snd (snd e) = 0" "rc' \<noteq> 0"
        "stdout w' = stdout ?w1 @ [step_message E c' rc']"
        by blast
      have "\<exists>old2 c2 i2 rc2. r = Inl (SystemExit 1) \<and> (c, i, 0) # new = old2 @ [(c2, i2, rc2)] \<and>
             (\<forall>e \<in> set old2. snd (snd e) = 0) \<and> rc2 \<noteq> 0 \<and>
             stdout w' = stdout w @ [step_message E c2 rc2]"
        using o by (intro exI [of _ "(c, i, 0) # old"] exI [of _ c'] exI [of _ i'] exI [of _ rc']) simp
      with new(1,2) show ?thesis
        by (intro exI [of _ "(c, i, 0) # new"]) (simp add: a)
    qed
  next
    case False
    let ?w1 = "w\<lparr>files := fs, invoked := invoked w @ [(c, i, rc)],
          stdout := stdout w @ [step_message E c rc]\<rparr>"
    from sh False have "run_step E c i w = (Inl (SystemExit 1), ?w1)" by (simp add: run_step_failed)
    with Cons.prems have "r = Inl (SystemExit 1)" "w' = ?w1" by (simp_all add: a bnd_Inl)
    then show ?thesis
      using False by (intro exI [of _ "[(c, i, rc)]"]) (simp add: a)
  qed
qed

lemma input_frame:
  "input p w = (r, w') \<Longrightarrow> invoked w' = invoked w \<and> files w' = files w"
  by (auto simp: input_def split: list.splits)

lemma write_mdp_files_invoked:
  assumes "write_mdp_files E temp ns_length w = (r, w')"
  shows "invoked w' = invoked w"
proof (cases "total_steps ns_length")
  case (Inl e)
  with assms show ?thesis by (simp add: write_mdp_files_def)
next
  case (Inr steps)
  obtain r1 w1 where w1: "write_all E (mdp_content temp steps) w = (r1, w1)"
    by (cases "write_all E (mdp_content temp steps) w")
  from write_all_frame [OF this] have "invoked w1 = invoked w" by simp
  moreover have "invoked w' = invoked w1"
    using assms Inr w1 by (cases r1) (auto simp: write_mdp_files_def bnd_Inl bnd_Inr print_def)
  ultimately show ?thesis by simp
qed

lemma step0_invoked:
  assumes "step0 E w = (r, w1)"
  shows "invoked w1 = invoked w"
proof (cases "stdin w")
  case Nil
  with assms show ?thesis by (auto simp: step0_def bnd_input_Nil)
next
  case (Cons l1 ls)
  show ?thesis
  proof (cases ls)
    case Nil
    with Cons assms show ?thesis by (auto simp: step0_def bnd_input_Cons bnd_input_Nil)
  next
    case (Cons l2 rest)
    with \<open>stdin w = l1 # ls\<close> have two: "stdin w = l1 # l2 # rest" by simp
    let ?w0 = "w\<lparr>stdin := rest,
          stdout := stdout w @ [''Enter simulation temperature (default 298): '',
                                ''Enter simulation length in ns (default 50): '']\<rparr>"
    show ?thesis
    proof (cases "py_float (or_default l2 50)")
      case (Inl e)
      with assms show ?thesis by (auto simp: step0_two_lines [OF two])
    next
      case (Inr x)
      obtain r2 w2 where w2: "write_mdp_files E (or_default l1 298) x ?w0 = (r2, w2)"
        by (cases "write_mdp_files E (or_default l1 298) x ?w0")
      from write_mdp_files_invoked [OF this] have "invoked w2 = invoked w" by simp
      moreover have "w1 = w2"
        using assms Inr w2
        by (cases r2) (auto simp: step0_two_lines [OF two] bnd_Inl bnd_Inr raise_or_return_def)
      ultimately show ?thesis by simp
    qed
  qed
qed

lemma main_log:
  assumes "main E w = (r, w')"
  shows "\<exists>new. invoked w' = invoked w @ new \<and>
     ((\<forall>e \<in> set new. snd (snd e) = 0)
      \<or> (\<exists>old c i rc. r = Inl (SystemExit 1) \<and> new = old @ [(c, i, rc)] \<and>
             (\<forall>e \<in> set old. snd (snd e) = 0) \<and> rc \<noteq> 0 \<and>
             stdout w' \<noteq> [] \<and> last (stdout w') = step_message E c rc))"
  using assms [unfolded main_def]
proof (cases rule: bnd_cases)
  case (fail e)
  from step0_invoked [OF fail(1)] show ?thesis by simp
next
  case (ok x w1)
  obtain user_temp user_ns where x: "x = (user_temp, user_ns)" by (cases x)
  from step0_invoked [OF ok(1)] have i1: "invoked w1 = invoked w" .
  from ok(2) [unfolded x prod.case] show ?thesis
  proof (cases rule: bnd_cases)
    case (fail e)
    from input_frame [OF fail(1)] i1 show ?thesis by simp
  next
    case inp: (ok l3 w2)
    from input_frame [OF inp(1)] i1 have i2: "invoked w2 = invoked w" by simp
    from inp(2) [unfolded Let_def] show ?thesis
    proof (cases rule: bnd_cases)
      case (fail e)
      from run_steps_log [OF fail(1)] fail(2) i2 show ?thesis
        by auto
    next
      case run: (ok u w3)
      from run(2) have "invoked w' = invoked w3" by (auto simp: print_def)
      with run_steps_log [OF run(1)] i2 show ?thesis
        by auto
    qed
  qed
qed

subsection \<open>Whole-number lengths\<close>

text \<open>
  A whole number of at most 9007199254 typed in decimal is read exactly, its product with
  \<^verbatim>\<open>1000000\<close> is exact, and \<^verbatim>\<open>md.mdp\<close> gets exactly a million steps for
  each nanosecond.
\<close>

lemma digit_val_digit_char: "d < 10 \<Longrightarrow> digit_val (digit_char d) = d"
proof -
  assume "d < 10"
  then have "d \<in> {0, 1, 2, 3, 4, 5, 6, 7, 8, 9}" by auto
  then show ?thesis by (auto simp: digit_val_def digit_char_def)
qed

lemma nat_of_digits_snoc: "nat_of_digits (ds @ [c]) = 10 * nat_of_digits ds + digit_val c"
  by (simp add: nat_of_digits_def)

lemma nat_of_digits_str_nat: "nat_of_digits (str_nat n) = n"
proof (induction n rule: str_nat.induct)
  case (1 n)
  show ?case
  proof (cases "n < 10")
    case True
    then show ?thesis
      by (simp add: str_nat.simps [of n] nat_of_digits_def digit_val_digit_char)
  next
    case False
    with "1.IH" show ?thesis
      by (simp add: str_nat.simps [of n] nat_of_digits_snoc digit_val_digit_char)
  qed
qed

lemma str_nat_not_empty: "str_nat n \<noteq> []"
  by (simp add: str_nat.simps [of n])

lemma drop_underscores_none:
  "CHR ''_'' \<notin> set cs \<Longrightarrow> prev \<noteq> CHR ''_'' \<Longrightarrow> drop_underscores prev cs = Some cs"
  by (induction cs arbitrary: prev) auto

lemma is_digit_iff: "is_digit c \<longleftrightarrow> c \<in> set ''0123456789''"
proof
  assume "is_digit c"
  then have "48 \<le> (of_char c :: nat)" and "(of_char c :: nat) \<le> 57"
    by (simp_all add: is_digit_def)
  then have "(of_char c :: nat) \<in> {48, 49, 50, 51, 52, 53, 54, 55, 56, 57}"
    by (simp only: insert_iff empty_iff) arith
  then have "(of_char c :: nat) \<in> of_char ` set ''0123456789''" by simp
  then show "c \<in> set ''0123456789''"
    by (simp only: inj_image_mem_iff [OF inj_of_char])
next
  assume "c \<in> set ''0123456789''"
  then show "is_digit c" by (auto simp: is_digit_def)
qed

lemma is_digit_cases:
  assumes "is_digit c"
  shows "c = CHR ''0'' \<or> c = CHR ''1'' \<or> c = CHR ''2'' \<or> c = CHR ''3'' \<or> c = CHR ''4'' \<or>
         c = CHR ''5'' \<or> c = CHR ''6'' \<or> c = CHR ''7'' \<or> c = CHR ''8'' \<or> c = CHR ''9''"
  using assms by (simp add: is_digit_iff)

lemma is_digit_facts:
  assumes "is_digit c"
  shows "to_ascii c = c" and "\<not> is_ascii_space c" and "c \<noteq> CHR ''_''" and "c \<noteq> CHR ''-''"
    and "c \<noteq> CHR ''+''" and "c \<noteq> CHR ''.''" and "lower c = c"
    and "c \<noteq> CHR ''i''" and "c \<noteq> CHR ''n''"
proof -
  note c = is_digit_cases [OF assms]
  show "to_ascii c = c" using c by (elim disjE) (simp_all add: to_ascii_def)
  show "\<not> is_ascii_space c" using c by (elim disjE) (simp_all add: is_ascii_space_def)
  show "c \<noteq> CHR ''_''" using c by (elim disjE) simp_all
  show "c \<noteq> CHR ''-''" using c by (elim disjE) simp_all
  show "c \<noteq> CHR ''+''" using c by (elim disjE) simp_all
  show "c \<noteq> CHR ''.''" using c by (elim disjE) simp_all
  show "lower c = c" using c by (elim disjE) (simp_all add: lower_def)
  show "c \<noteq> CHR ''i''" using c by (elim disjE) simp_all
  show "c \<noteq> CHR ''n''" using c by (elim disjE) simp_all
qed


lemma parse_number_digits:
  assumes "ds \<noteq> []" and "list_all is_digit ds"
  shows "parse_number ds = Some (of_nat (nat_of_digits ds))"
proof -
  from assms(2) have tw: "takeWhile is_digit ds = ds" and dw: "dropWhile is_digit ds = []"
    by (simp_all add: list_all_iff)
  from assms(1) show ?thesis
    by (simp add: parse_number_def parse_exponent_def tw dw)
qed

lemma float_of_string_digits:
  assumes "ds \<noteq> []" and "list_all is_digit ds"
  shows "float_of_string ds = Some (round_double (of_nat (nat_of_digits ds)))"
proof -
  obtain c cs where ds: "ds = c # cs" using assms(1) by (cases ds) auto
  have all: "\<forall>x \<in> set ds. is_digit x" using assms(2) by (simp add: list_all_iff)
  then have c: "is_digit c" and l: "is_digit (last ds)"
    using assms(1) by (simp_all add: ds)
  have ascii: "map to_ascii ds = ds"
    using all by (simp add: map_idI is_digit_facts(1))
  have "dropWhile is_ascii_space ds = ds"
    using c by (simp add: ds is_digit_facts(2))
  moreover have "dropWhile is_ascii_space (rev ds) = rev ds"
    using l assms(1) by (cases "rev ds") (auto simp: is_digit_facts(2) last_rev)
  ultimately have strip: "strip_ascii ds = ds"
    by (simp add: strip_ascii_def)
  have "CHR ''_'' \<notin> set ds" using all is_digit_facts(3) by blast
  then have under: "drop_underscores (CHR 0x00) ds = Some ds"
    by (rule drop_underscores_none) simp
  have sign: "split_sign ds = (False, ds)"
    using is_digit_facts(4,5) [OF c] by (simp add: split_sign_def ds)
  have low: "map lower ds = ds"
    using all by (simp add: map_idI is_digit_facts(7))
  have names: "ds \<noteq> ''inf''" "ds \<noteq> ''infinity''" "ds \<noteq> ''nan''"
    using is_digit_facts(8,9) [OF c] by (auto simp: ds)
  show ?thesis
    using assms(1) names
    by (simp add: float_of_string_def ascii strip under parse_float_body_def sign low
        parse_number_digits [OF assms])
qed

lemma whole_length_steps:
  assumes "n \<le> 9007199254"
  shows "py_float (StrObj (str_nat n)) = Inr (Finite (of_nat n))"
    and "total_steps (Finite (of_nat n)) = Inr (int n * 1000000)"
proof -
  have "list_all is_digit (str_nat n)"
    by (simp add: list_all_iff str_nat_digits)
  from float_of_string_digits [OF str_nat_not_empty this]
  have "float_of_string (str_nat n) = Some (round_double (of_int (int n)))"
    by (simp add: nat_of_digits_str_nat)
  moreover have "round_double (of_int (int n)) = Finite (of_int (int n))"
    using assms by (intro round_double_exact) simp
  ultimately show "py_float (StrObj (str_nat n)) = Inr (Finite (of_nat n))"
    by simp
  show "total_steps (Finite (of_nat n)) = Inr (int n * 1000000)"
    using total_steps_whole [of "int n"] assms by simp
qed

lemma whole_length_nsteps:
  assumes "stdin w = T # str_nat n # rest" and "n \<le> 9007199254"
    and "\<forall>name \<in> {''ions.mdp'', ''minim.mdp'', ''nvt.mdp'', ''npt.mdp'', ''md.mdp''}. writable E name"
    and "can_encode E (py_str (or_default T 298))"
    and "CHR 0x0A \<notin> set (py_str (or_default T 298))"
  shows "\<exists>w1 c. step0 E w = (Inr (or_default T 298, StrObj (str_nat n)), w1) \<and>
           files w1 ''md.mdp'' = Some c \<and>
           key_lines ''nsteps'' c = [''nsteps                  = '' @ str_int (int n * 1000000)]"
proof -
  have d: "or_default (str_nat n) 50 = StrObj (str_nat n)"
    by (simp add: or_default_def str_nat_not_empty)
  have f: "py_float (or_default (str_nat n) 50) = Inr (Finite (of_nat n))"
    unfolding d using assms(2) by (rule whole_length_steps(1))
  have t: "total_steps (Finite (of_nat n)) = Inr (int n * 1000000)"
    using assms(2) by (rule whole_length_steps(2))
  from step0_success [OF assms(1) f t assms(3,4)] obtain w1 where
    w1: "step0 E w = (Inr (or_default T 298, or_default (str_nat n) 50), w1)"
    and fs: "files w1 = files w ++ map_of (mdp_content (or_default T 298) (int n * 1000000))"
    by (elim exE conjE)
  obtain c where c: "mdp_text (or_default T 298) (int n * 1000000) ''md.mdp'' = Some c"
    using mdp_text_Some [of "''md.mdp''" "or_default T 298" "int n * 1000000"] by auto
  then have written: "files w1 ''md.mdp'' = Some c"
    by (simp add: fs mdp_text_def)
  from md_nsteps [OF assms(5), of "int n * 1000000"]
  have "key_lines ''nsteps'' c = [''nsteps                  = '' @ str_int (int n * 1000000)]"
    by (simp add: c)
  with w1 written show ?thesis
    unfolding d by (intro exI conjI)
qed

section \<open>The claims\<close>

text \<open>
  Claim C1: for every valid temperature and simulation length \<open>L\<close>, the \<^verbatim>\<open>nsteps\<close>
  written into \<^verbatim>\<open>md.mdp\<close> is \<open>L \<times> 1,000,000\<close> as an exact integer.

  The script computes the product in floating point and truncates it. For a blank temperature
  line and the length line \<^verbatim>\<open>4.1\<close>: the line denotes \<open>41 / 10\<close>, a million times
  that is \<open>4100000\<close>, the float nearest to \<open>4.1\<close> lies below it, its product with
  \<open>1000000.0\<close> rounds to a float below \<open>4100000\<close>, and \<^verbatim>\<open>int\<close> drops the fraction:
  the file says \<^verbatim>\<open>nsteps = 4099999\<close>. (For a whole number of nanoseconds the count is
  exact: lemma \<open>whole_length_nsteps\<close>.)
\<close>

theorem nsteps_for_4_1:
  "parse_number ''4.1'' = Some (41 / 10) \<and> (41 / 10 :: rat) * 1000000 = 4100000 \<and>
   map_option (key_lines ''nsteps'') (files (snd (step0 all_ok_env (start_world ['''', ''4.1'']))) ''md.mdp'')
     = Some [''nsteps                  = 4099999'']"
proof -
  have s: "stdin (start_world ['''', ''4.1'']) = [] # ''4.1'' # []"
    by (simp add: start_world_def)
  have f: "py_float (or_default ''4.1'' 50) = Inr (Finite (2308094809027379 / 562949953421312))"
    by (simp add: or_default_def float41)
  have wr: "\<forall>name \<in> {''ions.mdp'', ''minim.mdp'', ''nvt.mdp'', ''npt.mdp'', ''md.mdp''}.
          writable all_ok_env name"
    by (simp add: all_ok_env_def)
  have e: "can_encode all_ok_env (py_str (or_default [] 298))"
    by (simp add: or_default_def)
  from step0_success [OF s f steps41 wr e] obtain w1 where
    w1: "step0 all_ok_env (start_world ['''', ''4.1''])
           = (Inr (or_default [] 298, or_default ''4.1'' 50), w1)"
    and fs: "files w1 = files (start_world ['''', ''4.1''])
           ++ map_of (mdp_content (or_default [] 298) 4099999)"
    by (elim exE conjE)
  have t: "or_default [] 298 = IntObj 298" by (simp add: or_default_def)
  obtain c where c: "mdp_text (IntObj 298) 4099999 ''md.mdp'' = Some c"
    using mdp_text_Some [of "''md.mdp''" "IntObj 298" 4099999] by auto
  then have written: "files w1 ''md.mdp'' = Some c"
    by (simp add: fs t mdp_text_def)
  have "key_lines ''nsteps'' (the (mdp_text (IntObj 298) 4099999 ''md.mdp''))
      = [''nsteps                  = '' @ str_int 4099999]"
    by (rule md_nsteps) simp
  then have "key_lines ''nsteps'' c = [''nsteps                  = 4099999'']"
    by (simp add: c str_int_4099999)
  with written have "map_option (key_lines ''nsteps'') (files w1 ''md.mdp'')
     = Some [''nsteps                  = 4099999'']"
    by simp
  moreover have "snd (step0 all_ok_env (start_world ['''', ''4.1''])) = w1"
    by (simp add: w1)
  moreover have "(41 / 10 :: rat) * 1000000 = 4100000" by simp
  ultimately show ?thesis
    using parse41 by (simp only: simp_thms)
qed

text \<open>
  Claim C2: when an external command of the pipeline exits with a status other than 0, no
  later step is run, a message naming the failure is printed, and the process ends with exit
  status 1.

  Stated on the log of a whole run of the script: if the log has an entry with a status
  other than 0, then nothing comes after that entry, the run ended by \<^verbatim>\<open>exit(1)\<close>,
  and the last thing written is the handler's message for that very command and status, which
  begins by quoting the command.
\<close>

theorem failure_stops_pipeline:
  assumes "main E w = (r, w')"
    and "invoked w' = invoked w @ before @ (command, input_val, returncode) # after"
    and "returncode \<noteq> 0"
  shows "after = [] \<and> r = Inl (SystemExit 1) \<and> exit_status r = 1 \<and>
         stdout w' \<noteq> [] \<and>
         last (stdout w') = ''Error during execution: '' @
            called_process_error_str E command returncode @ [CHR 0x0A] \<and>
         prefix (''Command '' @ [CHR 0x27] @ command @ [CHR 0x27])
            (called_process_error_str E command returncode)"
proof -
  from main_log [OF assms(1)] assms(2) have
    "(\<forall>e \<in> set (before @ (command, input_val, returncode) # after). snd (snd e) = 0)
      \<or> (\<exists>old c i rc. r = Inl (SystemExit 1) \<and>
             before @ (command, input_val, returncode) # after = old @ [(c, i, rc)] \<and>
             (\<forall>e \<in> set old. snd (snd e) = 0) \<and> rc \<noteq> 0 \<and>
             stdout w' \<noteq> [] \<and> last (stdout w') = step_message E c rc)"
    by auto
  with assms(3) obtain old c i rc where o: "r = Inl (SystemExit 1)"
    "before @ (command, input_val, returncode) # after = old @ [(c, i, rc)]"
    "\<forall>e \<in> set old. snd (snd e) = 0" "stdout w' \<noteq> []"
    "last (stdout w') = step_message E c rc"
    by auto
  have after: "after = []"
  proof (rule ccontr)
    assume "after \<noteq> []"
    then have "butlast (before @ (command, input_val, returncode) # after)
        = before @ (command, input_val, returncode) # butlast after"
      by (simp add: butlast_append)
    with o(2) have "old = before @ (command, input_val, returncode) # butlast after"
      by simp
    with o(3) assms(3) show False by simp
  qed
  with o(2) have same: "c = command" "rc = returncode" by simp_all
  have "prefix (''Command '' @ [CHR 0x27] @ command @ [CHR 0x27])
            (called_process_error_str E command returncode)"
    by (simp add: called_process_error_str_def split: option.splits)
  with after o same show ?thesis
    by (simp add: exit_status_def step_message_def)
qed

theorem failure_stops_pipeline_witness:
  "invoked (snd (main (failing_env ''gmx_mpi editconf -f protein_processed.gro -o box.gro -c -d 1.0 -bt cubic'' 2)
       (start_world ['''', '''', ''abc''])))
     = invoked (start_world ['''', '''', ''abc'']) @
       [(''gmx_mpi pdb2gmx -f abc.pdb -o protein_processed.gro -water tips3p -ignh'', Some ''8'', 0)] @
       (''gmx_mpi editconf -f protein_processed.gro -o box.gro -c -d 1.0 -bt cubic'', None, 2) # [] \<and>
   (2::int) \<noteq> 0 \<and>
   fst (main (failing_env ''gmx_mpi editconf -f protein_processed.gro -o box.gro -c -d 1.0 -bt cubic'' 2)
       (start_world ['''', '''', ''abc''])) = Inl (SystemExit 1) \<and>
   last (stdout (snd (main (failing_env ''gmx_mpi editconf -f protein_processed.gro -o box.gro -c -d 1.0 -bt cubic'' 2)
       (start_world ['''', '''', ''abc'']))))
     = ''Error during execution: Command '' @ [CHR 0x27] @
       ''gmx_mpi editconf -f protein_processed.gro -o box.gro -c -d 1.0 -bt cubic'' @ [CHR 0x27] @
       '' returned non-zero exit status 2.'' @ [CHR 0x0A]"
proof -
  let ?bad = "''gmx_mpi editconf -f protein_processed.gro -o box.gro -c -d 1.0 -bt cubic''"
  let ?E = "failing_env ?bad 2"
  let ?w = "start_world ['''', '''', ''abc'']"
  have wr: "\<forall>name \<in> {''ions.mdp'', ''minim.mdp'', ''nvt.mdp'', ''npt.mdp'', ''md.mdp''}.
      writable ?E name"
    by (simp add: failing_env_def)
  have s: "stdin ?w = [] # [] # [''abc'']"
    by (simp add: start_world_def)
  from step0_defaults [OF wr s] obtain w1 where
    w1: "step0 ?E ?w = (Inr (IntObj 298, IntObj 50), w1)"
    and in1: "stdin w1 = [''abc'']"
    and inv: "invoked w1 = invoked ?w"
    by blast
  have strip: "strip ''abc'' = ''abc''" by (simp add: strip_def is_space_def)
  have sh: "shell ?E command input_val fs = (if command = ?bad then 2 else 0, fs)"
    for command input_val fs
    by (simp add: failing_env_def)
  let ?w2 = "w1\<lparr>stdin := [], stdout := stdout w1 @ [''PDB file name (without .pdb): '']\<rparr>"
  have m: "main ?E ?w = bnd (run_steps ?E (pipeline ''abc'' (IntObj 50)))
      (\<lambda>u. print (''\<newline>Simulation complete for '' @ py_str (IntObj 50) @ ''ns at ''
            @ py_str (IntObj 298) @ ''K!'')) ?w2"
    by (simp add: main_def bnd_Inr [where m = "step0 ?E", OF w1] bnd_input_Cons [OF in1] strip
        del: bnd_print)
  have log: "invoked (snd (main ?E ?w)) = invoked ?w @
       [(''gmx_mpi pdb2gmx -f abc.pdb -o protein_processed.gro -water tips3p -ignh'', Some ''8'', 0)] @
       (?bad, None, 2) # []"
    unfolding m
    by (simp add: pipeline_def run_step_def sh inv bnd_def print_def raise_or_return_def)
  have two: "(2::int) \<noteq> 0" by simp
  have "str_int 2 = ''2''" by (simp add: str_int_eval)
  moreover have p1: "main ?E ?w = (fst (main ?E ?w), snd (main ?E ?w))" by simp
  ultimately show ?thesis
    using failure_stops_pipeline [OF p1 log two] log
    by (simp add: called_process_error_str_def)
qed

text \<open>
  Claim C3: a blank line at the temperature prompt makes the temperature 298, and a blank
  line at the length prompt makes the length 50.

  With a blank first line the writer is called with the integer 298 as \<^verbatim>\<open>temp\<close>,
  whatever the second line is; with a blank second line \<^verbatim>\<open>float(50)\<close> is the float
  50 and the writer is called with it, whatever the first line is; and the parameters kept
  for the later steps are 298 and 50.
\<close>

theorem blank_defaults:
  "(stdin w = [] # l2 # rest \<longrightarrow>
      step0 E w =
        bnd (raise_or_return (py_float (or_default l2 50))) (\<lambda>ns_length.
        bnd (write_mdp_files E (IntObj 298) ns_length) (\<lambda>u.
        raise_or_return (Inr (IntObj 298, or_default l2 50))))
          (w\<lparr>stdin := rest,
             stdout := stdout w @ [''Enter simulation temperature (default 298): '',
                                   ''Enter simulation length in ns (default 50): '']\<rparr>)) \<and>
   (stdin w = l1 # [] # rest \<longrightarrow>
      step0 E w =
        bnd (write_mdp_files E (or_default l1 298) (Finite 50)) (\<lambda>u.
        raise_or_return (Inr (or_default l1 298, IntObj 50)))
          (w\<lparr>stdin := rest,
             stdout := stdout w @ [''Enter simulation temperature (default 298): '',
                                   ''Enter simulation length in ns (default 50): '']\<rparr>))"
  by (simp add: step0_two_lines or_default_def round_double_numeral)

theorem blank_defaults_witness:
  "stdin (start_world ['''', '''']) = [] # [] # [] \<and>
   step0 all_ok_env (start_world ['''', '''']) =
     bnd (write_mdp_files all_ok_env (IntObj 298) (Finite 50)) (\<lambda>u.
        raise_or_return (Inr (IntObj 298, IntObj 50)))
       ((start_world ['''', ''''])\<lparr>stdin := [],
          stdout := stdout (start_world ['''', '''']) @
            [''Enter simulation temperature (default 298): '',
             ''Enter simulation length in ns (default 50): '']\<rparr>)"
proof -
  have s: "stdin (start_world ['''', '''']) = [] # [] # []"
    by (simp add: start_world_def)
  have d: "or_default [] 298 = IntObj 298" by (simp add: or_default_def)
  note b = blank_defaults [where w = "start_world ['''', '''']" and ?l1.0 = "[]" and ?l2.0 = "[]"
      and rest = "[]" and E = all_ok_env, THEN conjunct2, rule_format, OF s, unfolded d]
  show ?thesis by (intro conjI) (rule s, rule b)
qed

text \<open>
  Claim C4: for every temperature \<open>T\<close>, both reference temperatures of
  \<^verbatim>\<open>nvt.mdp\<close> and of \<^verbatim>\<open>npt.mdp\<close> are \<open>T\<close>.

  Each of the two files is a fixed text, then the line that sets \<^verbatim>\<open>ref_t\<close> to the
  formatted temperature twice, then a fixed text; and when the formatted temperature has no
  newline in it (a line read by \<^verbatim>\<open>input\<close> never has), that line is the only line
  of the file whose key is \<^verbatim>\<open>ref_t\<close>.
\<close>

theorem equilibration_ref_t:
  "(\<exists>pre post. \<forall>temp. mdp_text temp steps ''nvt.mdp'' = Some (pre @ ref_t_line (py_str temp) @ post)) \<and>
   (\<exists>pre post. \<forall>temp. mdp_text temp steps ''npt.mdp'' = Some (pre @ ref_t_line (py_str temp) @ post)) \<and>
   (CHR 0x0A \<notin> set (py_str temp) \<longrightarrow>
      key_lines ''ref_t'' (the (mdp_text temp steps ''nvt.mdp'')) = [ref_t_line (py_str temp)] \<and>
      key_lines ''ref_t'' (the (mdp_text temp steps ''npt.mdp'')) = [ref_t_line (py_str temp)])"
  using nvt_shape [of steps] npt_shape [of steps] nvt_ref_t [of temp steps] npt_ref_t [of temp steps]
  by blast

theorem equilibration_ref_t_witness:
  "CHR 0x0A \<notin> set (py_str (StrObj ''310'')) \<and>
   key_lines ''ref_t'' (the (mdp_text (StrObj ''310'') 50000000 ''nvt.mdp''))
     = [''ref_t                   = 310     310''] \<and>
   key_lines ''ref_t'' (the (mdp_text (StrObj ''310'') 50000000 ''npt.mdp''))
     = [''ref_t                   = 310     310'']"
  using equilibration_ref_t [of 50000000 "StrObj ''310''"]
  by (simp add: ref_t_line_def)

text \<open>
  Claim C5: the writer produces five files with fixed names, constant except that the
  temperature appears in exactly two of them (twice in each) and the step count in exactly
  one.

  The temperature is in three files, not two: \<^verbatim>\<open>md.mdp\<close> has a \<^verbatim>\<open>ref_t\<close>
  line too (line 74 of the script). Changing only the temperature from 298 to 310 changes
  \<^verbatim>\<open>nvt.mdp\<close>, \<^verbatim>\<open>npt.mdp\<close> and \<^verbatim>\<open>md.mdp\<close>.
\<close>

theorem temperature_in_three_files:
  "mdp_text (StrObj ''298'') 1 ''nvt.mdp'' \<noteq> mdp_text (StrObj ''310'') 1 ''nvt.mdp'' \<and>
   mdp_text (StrObj ''298'') 1 ''npt.mdp'' \<noteq> mdp_text (StrObj ''310'') 1 ''npt.mdp'' \<and>
   mdp_text (StrObj ''298'') 1 ''md.mdp'' \<noteq> mdp_text (StrObj ''310'') 1 ''md.mdp''"
  using nvt_uses_temp npt_uses_temp md_uses_temp by blast

text \<open>
  What holds instead: the five names are fixed; the files that use the temperature are
  exactly \<^verbatim>\<open>nvt.mdp\<close>, \<^verbatim>\<open>npt.mdp\<close> and \<^verbatim>\<open>md.mdp\<close>, each with the
  temperature twice on its \<^verbatim>\<open>ref_t\<close> line; and the only file that uses the step
  count is \<^verbatim>\<open>md.mdp\<close>.
\<close>

theorem writer_files:
  "map fst (mdp_content temp steps) = [''ions.mdp'', ''minim.mdp'', ''nvt.mdp'', ''npt.mdp'', ''md.mdp''] \<and>
   {name. uses_temp name} = {''nvt.mdp'', ''npt.mdp'', ''md.mdp''} \<and>
   {name. uses_steps name} = {''md.mdp''} \<and>
   (\<exists>pre post. \<forall>temp. mdp_text temp steps ''nvt.mdp'' = Some (pre @ ref_t_line (py_str temp) @ post)) \<and>
   (\<exists>pre post. \<forall>temp. mdp_text temp steps ''npt.mdp'' = Some (pre @ ref_t_line (py_str temp) @ post)) \<and>
   (\<exists>pre post. \<forall>temp. mdp_text temp steps ''md.mdp'' = Some (pre @ ref_t_line (py_str temp) @ post))"
  using mdp_names [of temp steps] uses_temp_names uses_steps_names
    nvt_shape [of steps] npt_shape [of steps] md_shape [of steps]
  by blast

text \<open>
  Claim C6: when a command exits with a status other than 0, the command runner passes that
  status on as the exit status of the program.

  The handler calls \<^verbatim>\<open>exit(1)\<close> whatever the status was: a command that exits with
  status 2 ends the program with exit status 1.
\<close>

theorem exit_status_not_propagated:
  "fst (shell (failing_env ''gmx_mpi mdrun -v -deffnm em'' 2) ''gmx_mpi mdrun -v -deffnm em'' None
     Map.empty) = 2 \<and>
   exit_status (fst (run_step (failing_env ''gmx_mpi mdrun -v -deffnm em'' 2)
     ''gmx_mpi mdrun -v -deffnm em'' None (start_world []))) = 1"
  by (simp add: failing_env_def start_world_def run_step_def exit_status_def bnd_def print_def
      raise_or_return_def)

text \<open>
  What holds instead: for every status other than 0 the runner raises \<open>SystemExit 1\<close>, so
  the program ends with exit status 1; the status of the command is only reported, in the
  message printed before.
\<close>

theorem run_step_exits_with_one:
  assumes "shell E command input_val (files w) = (returncode, fs)" and "returncode \<noteq> 0"
  shows "fst (run_step E command input_val w) = Inl (SystemExit 1) \<and>
         exit_status (fst (run_step E command input_val w)) = 1 \<and>
         last (stdout (snd (run_step E command input_val w)))
           = ''Error during execution: '' @ called_process_error_str E command returncode
               @ [CHR 0x0A] \<and>
         (0 < returncode \<longrightarrow>
            called_process_error_str E command returncode
              = ''Command '' @ [CHR 0x27] @ command @ [CHR 0x27]
                  @ '' returned non-zero exit status '' @ str_int returncode @ ''.'')"
  using assms
  by (simp add: run_step_failed exit_status_def step_message_def called_process_error_str_def)

theorem run_step_exits_with_one_witness:
  "shell (failing_env ''gmx_mpi mdrun -v -deffnm em'' 2) ''gmx_mpi mdrun -v -deffnm em'' None
     (files (start_world [])) = (2, Map.empty) \<and> (2::int) \<noteq> 0 \<and>
   exit_status (fst (run_step (failing_env ''gmx_mpi mdrun -v -deffnm em'' 2)
     ''gmx_mpi mdrun -v -deffnm em'' None (start_world []))) = 1 \<and>
   last (stdout (snd (run_step (failing_env ''gmx_mpi mdrun -v -deffnm em'' 2)
     ''gmx_mpi mdrun -v -deffnm em'' None (start_world []))))
     = ''Error during execution: Command '' @ [CHR 0x27] @ ''gmx_mpi mdrun -v -deffnm em''
         @ [CHR 0x27] @ '' returned non-zero exit status 2.'' @ [CHR 0x0A]"
proof -
  have sh: "shell (failing_env ''gmx_mpi mdrun -v -deffnm em'' 2) ''gmx_mpi mdrun -v -deffnm em''
      None (files (start_world [])) = (2, Map.empty)"
    by (simp add: failing_env_def start_world_def)
  have "str_int 2 = ''2''" by (simp add: str_int_eval)
  with run_step_exits_with_one [OF sh] sh show ?thesis
    by (simp add: called_process_error_str_def exit_status_def)
qed

text \<open>
  Claim C7: running the writer with \<open>(T2, L2)\<close> after a run with any \<open>(T1, L1)\<close> leaves
  each of the five files with the content a single run with \<open>(T2, L2)\<close> gives it.

  Whatever the first run did (it may have failed, or left a file empty), when the second run
  returns, a single run from the original state returns too, both leave the same files, and
  each of \<^verbatim>\<open>ions.mdp\<close>, \<^verbatim>\<open>minim.mdp\<close>, \<^verbatim>\<open>nvt.mdp\<close>, \<^verbatim>\<open>npt.mdp\<close> and
  \<^verbatim>\<open>md.mdp\<close> exists and holds the text that the writer's templates give it for
  \<open>T2\<close> and the step count of \<open>L2\<close>.
\<close>

theorem rerun_overwrites:
  assumes "write_mdp_files E T1 L1 w = (r1, w1)"
    and "write_mdp_files E T2 L2 w1 = (Inr (), w2)"
  shows "\<exists>steps w'. total_steps L2 = Inr steps \<and>
           write_mdp_files E T2 L2 w = (Inr (), w') \<and> files w2 = files w' \<and>
           (\<forall>name \<in> {''ions.mdp'', ''minim.mdp'', ''nvt.mdp'', ''npt.mdp'', ''md.mdp''}.
              \<exists>content. mdp_text T2 steps name = Some content \<and> files w2 name = Some content)"
proof -
  from assms(2) obtain steps where
    steps: "total_steps L2 = Inr steps"
    and wr: "\<forall>name \<in> fst ` set (mdp_content T2 steps). writable E name"
    and enc: "can_encode E (py_str T2)"
    and w2: "files w2 = files w1 ++ map_of (mdp_content T2 steps)"
    by (auto simp: write_mdp_files_success)
  define w' where "w' = w\<lparr>files := files w ++ map_of (mdp_content T2 steps),
     stdout := stdout w @ [''Successfully generated all .mdp files.'' @ [CHR 0x0A]]\<rparr>"
  have single: "write_mdp_files E T2 L2 w = (Inr (), w')"
    using steps wr enc by (simp add: write_mdp_files_success w'_def)
  have dom: "dom (map_of (mdp_content T2 steps))
      = {''ions.mdp'', ''minim.mdp'', ''nvt.mdp'', ''npt.mdp'', ''md.mdp''}"
    by (simp add: dom_map_of_conv_image_fst mdp_names_set)
  have "files w2 name = files w' name" for name
  proof (cases "name \<in> {''ions.mdp'', ''minim.mdp'', ''nvt.mdp'', ''npt.mdp'', ''md.mdp''}")
    case True
    then have "name \<in> dom (map_of (mdp_content T2 steps))" unfolding dom .
    then show ?thesis by (simp add: w2 w'_def map_add_dom_app_simps)
  next
    case False
    then have "name \<notin> dom (map_of (mdp_content T2 steps))" unfolding dom .
    moreover have "files w1 name = files w name"
      using write_mdp_files_frame [OF assms(1), of name] False by simp
    ultimately show ?thesis by (simp add: w2 w'_def map_add_dom_app_simps)
  qed
  then have eq: "files w2 = files w'" by (rule ext)
  have "\<exists>content. mdp_text T2 steps name = Some content \<and> files w2 name = Some content"
    if "name \<in> {''ions.mdp'', ''minim.mdp'', ''nvt.mdp'', ''npt.mdp'', ''md.mdp''}" for name
  proof -
    from mdp_text_Some [OF that, of T2 steps] obtain content where
      c: "mdp_text T2 steps name = Some content" by (elim exE)
    then have "files w2 name = Some content"
      by (simp add: w2 mdp_text_def)
    with c show ?thesis by (intro exI conjI)
  qed
  then have "\<forall>name \<in> {''ions.mdp'', ''minim.mdp'', ''nvt.mdp'', ''npt.mdp'', ''md.mdp''}.
      \<exists>content. mdp_text T2 steps name = Some content \<and> files w2 name = Some content"
    by (rule ballI)
  with steps single eq show ?thesis by (intro exI conjI)
qed

theorem rerun_overwrites_witness:
  "fst (write_mdp_files all_ok_env (StrObj ''310'') (Finite 100)
         (snd (write_mdp_files all_ok_env (StrObj ''298'') (Finite 50) (start_world [])))) = Inr () \<and>
   files (snd (write_mdp_files all_ok_env (StrObj ''310'') (Finite 100)
         (snd (write_mdp_files all_ok_env (StrObj ''298'') (Finite 50) (start_world [])))))
     = files (snd (write_mdp_files all_ok_env (StrObj ''310'') (Finite 100) (start_world []))) \<and>
   files (snd (write_mdp_files all_ok_env (StrObj ''310'') (Finite 100)
         (snd (write_mdp_files all_ok_env (StrObj ''298'') (Finite 50) (start_world [])))))
       ''ions.mdp'' = Some ''integrator = steep\<newline>'' \<and>
   map_option (key_lines ''ref_t'')
     (files (snd (write_mdp_files all_ok_env (StrObj ''310'') (Finite 100)
         (snd (write_mdp_files all_ok_env (StrObj ''298'') (Finite 50) (start_world [])))))
       ''nvt.mdp'') = Some [''ref_t                   = 310     310''] \<and>
   map_option (key_lines ''ref_t'')
     (files (snd (write_mdp_files all_ok_env (StrObj ''310'') (Finite 100)
         (snd (write_mdp_files all_ok_env (StrObj ''298'') (Finite 50) (start_world [])))))
       ''npt.mdp'') = Some [''ref_t                   = 310     310''] \<and>
   map_option (key_lines ''ref_t'')
     (files (snd (write_mdp_files all_ok_env (StrObj ''310'') (Finite 100)
         (snd (write_mdp_files all_ok_env (StrObj ''298'') (Finite 50) (start_world [])))))
       ''md.mdp'') = Some [''ref_t                   = 310     310''] \<and>
   map_option (key_lines ''nsteps'')
     (files (snd (write_mdp_files all_ok_env (StrObj ''310'') (Finite 100)
         (snd (write_mdp_files all_ok_env (StrObj ''298'') (Finite 50) (start_world [])))))
       ''md.mdp'') = Some [''nsteps                  = 100000000''] \<and>
   (\<exists>content. files (snd (write_mdp_files all_ok_env (StrObj ''310'') (Finite 100)
         (snd (write_mdp_files all_ok_env (StrObj ''298'') (Finite 50) (start_world [])))))
       ''minim.mdp'' = Some content)"
proof -
  define w1 where "w1 = snd (write_mdp_files all_ok_env (StrObj ''298'') (Finite 50) (start_world []))"
  define r1 where "r1 = fst (write_mdp_files all_ok_env (StrObj ''298'') (Finite 50) (start_world []))"
  have first: "write_mdp_files all_ok_env (StrObj ''298'') (Finite 50) (start_world []) = (r1, w1)"
    by (simp add: r1_def w1_def)
  have "\<exists>w2. write_mdp_files all_ok_env (StrObj ''310'') (Finite 100) w1 = (Inr (), w2)"
    by (simp add: write_mdp_files_success total_steps_100 all_ok_env_def)
  then obtain w2 where second: "write_mdp_files all_ok_env (StrObj ''310'') (Finite 100) w1 = (Inr (), w2)"
    by (elim exE)
  from rerun_overwrites [OF first second] obtain steps w' where
    st: "total_steps (Finite 100) = Inr steps"
    and single: "write_mdp_files all_ok_env (StrObj ''310'') (Finite 100) (start_world []) = (Inr (), w')"
    and eq: "files w2 = files w'"
    and five: "\<forall>name \<in> {''ions.mdp'', ''minim.mdp'', ''nvt.mdp'', ''npt.mdp'', ''md.mdp''}.
        \<exists>content. mdp_text (StrObj ''310'') steps name = Some content \<and> files w2 name = Some content"
    by (elim exE conjE)
  from st have steps: "steps = 100000000" by (simp add: total_steps_100)
  have written: "\<exists>content. mdp_text (StrObj ''310'') 100000000 name = Some content \<and>
      files w2 name = Some content"
    if "name \<in> {''ions.mdp'', ''minim.mdp'', ''nvt.mdp'', ''npt.mdp'', ''md.mdp''}" for name
    using five [rule_format, OF that] unfolding steps .
  have nl: "CHR 0x0A \<notin> set (py_str (StrObj ''310''))" by simp
  have r: "ref_t_line (py_str (StrObj ''310'')) = ''ref_t                   = 310     310''"
    by (simp add: ref_t_line_def)
  have s: "str_int 100000000 = ''100000000''" by (simp add: str_int_eval)
  from written [of "''ions.mdp''"] have ions: "files w2 ''ions.mdp'' = Some ''integrator = steep\<newline>''"
    by (simp add: mdp_text_def mdp_content_def)
  from written [of "''nvt.mdp''"] nvt_ref_t [OF nl, of 100000000]
  have nvt: "map_option (key_lines ''ref_t'') (files w2 ''nvt.mdp'')
      = Some [''ref_t                   = 310     310'']"
    unfolding r by auto
  from written [of "''npt.mdp''"] npt_ref_t [OF nl, of 100000000]
  have npt: "map_option (key_lines ''ref_t'') (files w2 ''npt.mdp'')
      = Some [''ref_t                   = 310     310'']"
    unfolding r by auto
  from written [of "''md.mdp''"] md_ref_t [OF nl, of 100000000]
  have md: "map_option (key_lines ''ref_t'') (files w2 ''md.mdp'')
      = Some [''ref_t                   = 310     310'']"
    unfolding r by auto
  from written [of "''md.mdp''"] md_nsteps [OF nl, of 100000000]
  have md2: "map_option (key_lines ''nsteps'') (files w2 ''md.mdp'')
      = Some [''nsteps                  = 100000000'']"
    unfolding s by auto
  from written [of "''minim.mdp''"]
  have minim: "\<exists>content. files w2 ''minim.mdp'' = Some content" by auto
  have a: "snd (write_mdp_files all_ok_env (StrObj ''310'') (Finite 100) w1) = w2"
    and b: "fst (write_mdp_files all_ok_env (StrObj ''310'') (Finite 100) w1) = Inr ()"
    and c: "snd (write_mdp_files all_ok_env (StrObj ''310'') (Finite 100) (start_world [])) = w'"
    by (simp_all add: second single)
  show ?thesis
    unfolding w1_def [symmetric] a b c
    using eq ions nvt npt md md2 minim by auto
qed

text \<open>
  Claim C8: for the structure name \<^verbatim>\<open>abc\<close> the conversion command reads
  \<^verbatim>\<open>abc.pdb\<close> and writes \<^verbatim>\<open>protein_processed.gro\<close>.

  When step 0 has succeeded and the next line strips to \<^verbatim>\<open>abc\<close>, the first command
  the script runs is the one below, with \<^verbatim>\<open>8\<close> as its standard input.
\<close>

theorem conversion_command:
  assumes "step0 E w = (Inr (user_temp, user_ns), w1)"
    and "stdin w1 = l # rest" and "strip l = ''abc''"
  shows "\<exists>returncode more. invoked (snd (main E w)) = invoked w1 @
     (''gmx_mpi pdb2gmx -f abc.pdb -o protein_processed.gro -water tips3p -ignh'', Some ''8'',
      returncode) # more"
proof -
  let ?w2 = "w1\<lparr>stdin := rest, stdout := stdout w1 @ [''PDB file name (without .pdb): '']\<rparr>"
  let ?k = "\<lambda>u. print (''\<newline>Simulation complete for '' @ py_str user_ns @ ''ns at ''
            @ py_str user_temp @ ''K!'')"
  have m: "main E w = bnd (run_steps E (pipeline ''abc'' user_ns)) ?k ?w2"
    by (simp add: main_def bnd_Inr [where m = "step0 E", OF assms(1)] bnd_input_Cons [OF assms(2)] assms(3)
        del: bnd_print)
  obtain r3 w3 where w3: "run_steps E (pipeline ''abc'' user_ns) ?w2 = (r3, w3)"
    by (cases "run_steps E (pipeline ''abc'' user_ns) ?w2")
  from run_steps_log [OF this] obtain new where
    new: "invoked w3 = invoked w1 @ new"
      "map (\<lambda>(c, i, rc). (c, i)) new = take (length new) (pipeline ''abc'' user_ns)"
      "new \<noteq> []"
    by (auto simp: pipeline_def)
  then obtain e more where e: "new = e # more" by (cases new) auto
  obtain c i rc where cir: "e = (c, i, rc)" by (cases e)
  from new(2) have "(c, i) = (''gmx_mpi pdb2gmx -f abc.pdb -o protein_processed.gro -water tips3p -ignh'',
      Some ''8'')"
    by (simp add: e cir pipeline_def)
  moreover have "invoked (snd (main E w)) = invoked w3"
    using w3 by (cases r3) (auto simp: m bnd_Inl bnd_Inr print_def simp del: bnd_print)
  ultimately show ?thesis
    using new(1) e cir by auto
qed

theorem conversion_command_witness:
  "fst (step0 all_ok_env (start_world ['''', '''', ''  abc ''])) = Inr (IntObj 298, IntObj 50) \<and>
   stdin (snd (step0 all_ok_env (start_world ['''', '''', ''  abc '']))) = [''  abc ''] \<and>
   strip ''  abc '' = ''abc'' \<and>
   (\<exists>returncode more. invoked (snd (main all_ok_env (start_world ['''', '''', ''  abc '']))) =
     (''gmx_mpi pdb2gmx -f abc.pdb -o protein_processed.gro -water tips3p -ignh'', Some ''8'',
      returncode) # more)"
proof -
  have wr: "\<forall>name \<in> {''ions.mdp'', ''minim.mdp'', ''nvt.mdp'', ''npt.mdp'', ''md.mdp''}.
      writable all_ok_env name"
    by (simp add: all_ok_env_def)
  have s: "stdin (start_world ['''', '''', ''  abc '']) = [] # [] # [''  abc '']"
    by (simp add: start_world_def)
  from step0_defaults [OF wr s] obtain w1 where
    w1: "step0 all_ok_env (start_world ['''', '''', ''  abc '']) = (Inr (IntObj 298, IntObj 50), w1)"
    and in1: "stdin w1 = [''  abc '']"
    and inv: "invoked w1 = invoked (start_world ['''', '''', ''  abc ''])"
    by blast
  from conversion_command [OF w1 in1 strip_abc] inv w1 in1 strip_abc show ?thesis
    by (simp add: start_world_def)
qed

text \<open>
  Claim C9: when the length line is not empty and is not a number, the program fails before
  the writer runs, and none of the five files is created or changed.

  \<^verbatim>\<open>float(user_ns)\<close> raises \<open>ValueError\<close> while the arguments of the call are
  evaluated: the script ends there with exit status 1, the files are as they were and no
  command has been run.
\<close>

theorem bad_length_writes_nothing:
  assumes "stdin w = T # L # rest" and "L \<noteq> []" and "float_of_string L = None"
  shows "\<exists>w'. main E w = (Inl ValueError, w') \<and> files w' = files w \<and> invoked w' = invoked w \<and>
           exit_status (fst (main E w)) = 1"
proof -
  have "py_float (or_default L 50) = Inl ValueError"
    using assms(2,3) by (simp add: or_default_def)
  then show ?thesis
    by (simp add: main_def step0_two_lines [OF assms(1)] bnd_Inl [where m = "step0 E"]
        exit_status_def)
qed

theorem bad_length_writes_nothing_witness:
  "stdin (start_world [''300'', ''abc'']) = ''300'' # ''abc'' # [] \<and> ''abc'' \<noteq> [] \<and>
   float_of_string ''abc'' = None \<and>
   fst (main all_ok_env (start_world [''300'', ''abc''])) = Inl ValueError \<and>
   files (snd (main all_ok_env (start_world [''300'', ''abc'']))) = Map.empty \<and>
   invoked (snd (main all_ok_env (start_world [''300'', ''abc'']))) = [] \<and>
   exit_status (fst (main all_ok_env (start_world [''300'', ''abc'']))) = 1"
proof -
  have s: "stdin (start_world [''300'', ''abc'']) = ''300'' # ''abc'' # []"
    by (simp add: start_world_def)
  have n: "''abc'' \<noteq> []" by simp
  from bad_length_writes_nothing [OF s n float_of_string_abc, of all_ok_env] s float_of_string_abc
  show ?thesis by (auto simp: start_world_def)
qed

text \<open>
  Claim C10: a temperature line that is not empty is used as it is, without any check or
  conversion: whatever it is, no error comes from it and it is both \<^verbatim>\<open>ref_t\<close>
  values of \<^verbatim>\<open>nvt.mdp\<close>, \<^verbatim>\<open>npt.mdp\<close> and \<^verbatim>\<open>md.mdp\<close>.

  Not for every line: the script never checks the line, but \<^verbatim>\<open>f.write\<close> has to
  encode it. When the files are written in ASCII and the temperature line is the one
  character of code point 233, the writer has written \<^verbatim>\<open>ions.mdp\<close> and
  \<^verbatim>\<open>minim.mdp\<close>, has opened and so emptied \<^verbatim>\<open>nvt.mdp\<close>, and ends there with
  \<open>UnicodeEncodeError\<close>: the script stops with exit status 1, \<^verbatim>\<open>nvt.mdp\<close> is empty
  and \<^verbatim>\<open>npt.mdp\<close> and \<^verbatim>\<open>md.mdp\<close> are not written.
\<close>

theorem unencodable_temperature:
  "[CHR 0xE9] \<noteq> [] \<and>
   fst (main ascii_files_env (start_world [[CHR 0xE9], ''''])) = Inl UnicodeEncodeError \<and>
   exit_status (fst (main ascii_files_env (start_world [[CHR 0xE9], '''']))) = 1 \<and>
   files (snd (main ascii_files_env (start_world [[CHR 0xE9], '''']))) ''nvt.mdp'' = Some [] \<and>
   files (snd (main ascii_files_env (start_world [[CHR 0xE9], '''']))) ''npt.mdp'' = None \<and>
   files (snd (main ascii_files_env (start_world [[CHR 0xE9], '''']))) ''md.mdp'' = None"
proof -
  let ?w = "start_world [[CHR 0xE9], '''']"
  let ?v = "?w\<lparr>stdin := [],
          stdout := stdout ?w @ [''Enter simulation temperature (default 298): '',
                                ''Enter simulation length in ns (default 50): '']\<rparr>"
  define res where
    "res = write_all ascii_files_env (mdp_content (StrObj [CHR 0xE9]) 50000000) ?v"
  have r: "fst res = Inl UnicodeEncodeError"
    by (simp add: res_def mdp_content_def ascii_files_env_def)
  have nvt: "files (snd res) ''nvt.mdp'' = Some []"
    by (simp add: res_def mdp_content_def ascii_files_env_def)
  have npt: "files (snd res) ''npt.mdp'' = None"
    by (simp add: res_def mdp_content_def ascii_files_env_def start_world_def)
  have md: "files (snd res) ''md.mdp'' = None"
    by (simp add: res_def mdp_content_def ascii_files_env_def start_world_def)
  have wa: "write_all ascii_files_env (mdp_content (StrObj [CHR 0xE9]) 50000000) ?v
      = (Inl UnicodeEncodeError, snd res)"
    using r by (simp add: res_def prod_eq_iff)
  have wm: "write_mdp_files ascii_files_env (StrObj [CHR 0xE9]) (Finite 50) ?v
      = (Inl UnicodeEncodeError, snd res)"
    by (simp add: write_mdp_files_def total_steps_50
        bnd_Inl [where m = "write_all ascii_files_env (mdp_content (StrObj [CHR 0xE9]) 50000000)",
          OF wa])
  have s: "stdin ?w = [CHR 0xE9] # [] # []" by (simp add: start_world_def)
  have f: "py_float (or_default [] 50) = Inr (Finite 50)"
    by (simp add: or_default_def round_double_numeral)
  have t: "or_default [CHR 0xE9] 298 = StrObj [CHR 0xE9]" by (simp add: or_default_def)
  have s0: "step0 ascii_files_env ?w = (Inl UnicodeEncodeError, snd res)"
    by (simp add: step0_two_lines [OF s] f t
        bnd_Inl [where m = "write_mdp_files ascii_files_env (StrObj [CHR 0xE9]) (Finite 50)",
          OF wm])
  have "main ascii_files_env ?w = (Inl UnicodeEncodeError, snd res)"
    by (simp add: main_def bnd_Inl [where m = "step0 ascii_files_env", OF s0])
  then show ?thesis
    by (simp add: exit_status_def nvt npt md)
qed

text \<open>
  What holds instead: a temperature line that is not empty and that the encoding of the
  files can encode (every ASCII line can be encoded) is used as it is, without any check or
  conversion. The other conditions for step 0 to succeed concern the length line and the
  files only. Under them, for every such line \<open>T\<close>, step 0 succeeds with the string \<open>T\<close>
  as temperature, and each of \<^verbatim>\<open>nvt.mdp\<close>, \<^verbatim>\<open>npt.mdp\<close> and \<^verbatim>\<open>md.mdp\<close> exists
  and is the writer's text for \<open>T\<close>, with \<open>T\<close> twice on its \<^verbatim>\<open>ref_t\<close> line.
\<close>

theorem raw_temperature:
  assumes "stdin w = T # L # rest" and "T \<noteq> []" and "can_encode E T"
    and "py_float (or_default L 50) = Inr x" and "total_steps x = Inr steps"
    and "\<forall>name \<in> {''ions.mdp'', ''minim.mdp'', ''nvt.mdp'', ''npt.mdp'', ''md.mdp''}. writable E name"
  shows "\<exists>w1. step0 E w = (Inr (StrObj T, or_default L 50), w1) \<and>
           (\<forall>name \<in> {''nvt.mdp'', ''npt.mdp'', ''md.mdp''}.
              (\<exists>content. mdp_text (StrObj T) steps name = Some content \<and>
                 files w1 name = Some content) \<and>
              (\<exists>pre post. files w1 name = Some (pre @ ref_t_line T @ post)) \<and>
              (CHR 0x0A \<notin> set T \<longrightarrow>
                 map_option (key_lines ''ref_t'') (files w1 name) = Some [ref_t_line T]))"
proof -
  have T: "or_default T 298 = StrObj T" using assms(2) by (simp add: or_default_def)
  have enc: "can_encode E (py_str (or_default T 298))" using assms(3) by (simp add: T)
  from step0_success [OF assms(1,4,5,6) enc] obtain w1 where
    s: "step0 E w = (Inr (StrObj T, or_default L 50), w1)"
    and fs: "files w1 = files w ++ map_of (mdp_content (StrObj T) steps)"
    by (auto simp: T)
  have written: "\<exists>content. mdp_text (StrObj T) steps name = Some content \<and>
      files w1 name = Some content"
    if "name \<in> {''nvt.mdp'', ''npt.mdp'', ''md.mdp''}" for name
  proof -
    from that obtain c where c: "mdp_text (StrObj T) steps name = Some c"
      using mdp_text_Some [of name "StrObj T" steps] by auto
    then have "files w1 name = Some c" by (simp add: fs mdp_text_def)
    with c show ?thesis by (intro exI conjI)
  qed
  have same: "files w1 name = mdp_text (StrObj T) steps name"
    if "name \<in> {''nvt.mdp'', ''npt.mdp'', ''md.mdp''}" for name
    using written [OF that] by auto
  have shape: "\<exists>pre post. mdp_text (StrObj T) steps name = Some (pre @ ref_t_line T @ post)"
    if "name \<in> {''nvt.mdp'', ''npt.mdp'', ''md.mdp''}" for name
  proof -
    from that consider "name = ''nvt.mdp''" | "name = ''npt.mdp''" | "name = ''md.mdp''" by blast
    then show ?thesis
    proof cases
      case 1
      with nvt_shape [of steps] show ?thesis by (metis py_str.simps(2))
    next
      case 2
      with npt_shape [of steps] show ?thesis by (metis py_str.simps(2))
    next
      case 3
      with md_shape [of steps] show ?thesis by (metis py_str.simps(2))
    qed
  qed
  have lines: "key_lines ''ref_t'' (the (mdp_text (StrObj T) steps name)) = [ref_t_line T]"
    if "name \<in> {''nvt.mdp'', ''npt.mdp'', ''md.mdp''}" and nl: "CHR 0x0A \<notin> set T" for name
  proof -
    from that consider "name = ''nvt.mdp''" | "name = ''npt.mdp''" | "name = ''md.mdp''" by blast
    then show ?thesis
    proof cases
      case 1
      with nvt_ref_t [of "StrObj T" steps] nl show ?thesis by simp
    next
      case 2
      with npt_ref_t [of "StrObj T" steps] nl show ?thesis by simp
    next
      case 3
      with md_ref_t [of "StrObj T" steps] nl show ?thesis by simp
    qed
  qed
  show ?thesis
  proof (rule exI [of _ w1], intro conjI ballI impI)
    show "step0 E w = (Inr (StrObj T, or_default L 50), w1)" by (rule s)
  next
    fix name assume "name \<in> {''nvt.mdp'', ''npt.mdp'', ''md.mdp''}"
    then show "\<exists>content. mdp_text (StrObj T) steps name = Some content \<and>
        files w1 name = Some content"
      by (rule written)
  next
    fix name assume n: "name \<in> {''nvt.mdp'', ''npt.mdp'', ''md.mdp''}"
    from shape [OF n] show "\<exists>pre post. files w1 name = Some (pre @ ref_t_line T @ post)"
      by (simp only: same [OF n])
  next
    fix name assume n: "name \<in> {''nvt.mdp'', ''npt.mdp'', ''md.mdp''}" and nl: "CHR 0x0A \<notin> set T"
    from written [OF n] obtain content where
      c: "mdp_text (StrObj T) steps name = Some content" "files w1 name = Some content"
      by (elim exE conjE)
    from lines [OF n nl] c
    show "map_option (key_lines ''ref_t'') (files w1 name) = Some [ref_t_line T]"
      by simp
  qed
qed

theorem raw_temperature_witness:
  "stdin (start_world [''hot'', '''']) = ''hot'' # '''' # [] \<and> ''hot'' \<noteq> [] \<and>
   can_encode ascii_files_env ''hot'' \<and>
   py_float (or_default '''' 50) = Inr (Finite 50) \<and> total_steps (Finite 50) = Inr 50000000 \<and>
   writable ascii_files_env ''ions.mdp'' \<and> writable ascii_files_env ''minim.mdp'' \<and>
   writable ascii_files_env ''nvt.mdp'' \<and> writable ascii_files_env ''npt.mdp'' \<and>
   writable ascii_files_env ''md.mdp'' \<and>
   fst (step0 ascii_files_env (start_world [''hot'', ''''])) = Inr (StrObj ''hot'', IntObj 50) \<and>
   map_option (key_lines ''ref_t'')
       (files (snd (step0 ascii_files_env (start_world [''hot'', '''']))) ''nvt.mdp'')
     = Some [''ref_t                   = hot     hot''] \<and>
   map_option (key_lines ''ref_t'')
       (files (snd (step0 ascii_files_env (start_world [''hot'', '''']))) ''npt.mdp'')
     = Some [''ref_t                   = hot     hot''] \<and>
   map_option (key_lines ''ref_t'')
       (files (snd (step0 ascii_files_env (start_world [''hot'', '''']))) ''md.mdp'')
     = Some [''ref_t                   = hot     hot'']"
proof -
  have s: "stdin (start_world [''hot'', '''']) = ''hot'' # '''' # []"
    by (simp add: start_world_def)
  have n: "''hot'' \<noteq> []" by simp
  have e: "can_encode ascii_files_env ''hot''" by simp
  have f: "py_float (or_default '''' 50) = Inr (Finite 50)"
    by (simp add: or_default_def round_double_numeral)
  have wr: "\<forall>name \<in> {''ions.mdp'', ''minim.mdp'', ''nvt.mdp'', ''npt.mdp'', ''md.mdp''}.
      writable ascii_files_env name"
    by (simp add: ascii_files_env_def)
  have nl: "CHR 0x0A \<notin> set ''hot''" by simp
  from raw_temperature [OF s n e f total_steps_50 wr] obtain w1 where
    w1: "step0 ascii_files_env (start_world [''hot'', ''''])
           = (Inr (StrObj ''hot'', or_default '''' 50), w1)"
    and c: "\<forall>name \<in> {''nvt.mdp'', ''npt.mdp'', ''md.mdp''}.
              (\<exists>content. mdp_text (StrObj ''hot'') 50000000 name = Some content \<and>
                 files w1 name = Some content) \<and>
              (\<exists>pre post. files w1 name = Some (pre @ ref_t_line ''hot'' @ post)) \<and>
              (CHR 0x0A \<notin> set ''hot'' \<longrightarrow>
                 map_option (key_lines ''ref_t'') (files w1 name) = Some [ref_t_line ''hot''])"
    by (elim exE conjE)
  have k: "map_option (key_lines ''ref_t'') (files w1 name) = Some [ref_t_line ''hot'']"
    if "name \<in> {''nvt.mdp'', ''npt.mdp'', ''md.mdp''}" for name
    using c [rule_format, OF that] nl by (elim conjE impE)
  have w: "snd (step0 ascii_files_env (start_world [''hot'', ''''])) = w1" by (simp add: w1)
  have r: "ref_t_line ''hot'' = ''ref_t                   = hot     hot''"
    by (simp add: ref_t_line_def)
  have k1: "map_option (key_lines ''ref_t'') (files w1 ''nvt.mdp'') = Some [ref_t_line ''hot'']"
    by (rule k) simp
  have k2: "map_option (key_lines ''ref_t'') (files w1 ''npt.mdp'') = Some [ref_t_line ''hot'']"
    by (rule k) simp
  have k3: "map_option (key_lines ''ref_t'') (files w1 ''md.mdp'') = Some [ref_t_line ''hot'']"
    by (rule k) simp
  have "fst (step0 ascii_files_env (start_world [''hot'', ''''])) = Inr (StrObj ''hot'', IntObj 50)"
    by (simp add: w1 or_default_def)
  then show ?thesis
    using s e f total_steps_50 k1 k2 k3 unfolding w r by (simp add: ascii_files_env_def)
qed

end
